theory Spec2Isabelle
  imports Main
begin

section \<open>Python values\<close>

text \<open>
  A Python \<^verbatim>\<open>str\<close> is a sequence of Unicode code points, so it is modelled as a list of
  natural numbers; \<open>u\<close> turns an ASCII literal of the notebook into that list.
\<close>

type_synonym pystr = "nat list"

definition u :: "string \<Rightarrow> pystr" where
  "u s = map of_char s"

text \<open>
  The values that the notebook builds and that JSON can carry. A dictionary keeps its
  items in insertion order, as Python's does, so it is a list of pairs. The program never
  computes with a float, it only writes and prints them, so a float is kept as the decimal
  number that names it: \<open>PyFloat m e\<close> is the float that Python prints as
  \<open>m \<times> 10\<^sup>e\<close>, and \<^verbatim>\<open>0.1\<close> is \<open>PyFloat 1 (-1)\<close>. Rounding to the nearest
  binary float is not modelled. \<open>PyNaN\<close> and \<open>PyInfinity\<close> are the three floats that are
  not numbers; \<open>PyInfinity True\<close> is the negative one.
\<close>

datatype py =
    PyNone
  | PyBool bool
  | PyInt int
  | PyFloat int int
  | PyNaN
  | PyInfinity bool
  | PyStr pystr
  | PyList "py list"
  | PyDict "(pystr \<times> py) list"

text \<open>The exceptions the notebook's calls can raise.\<close>

datatype error =
    ClientError pystr
  | UnicodeDecodeError
  | JSONDecodeError
  | KeyError py
  | IndexError
  | TypeError
  | NameError pystr

text \<open>\<^verbatim>\<open>str\<close> of an integer: its decimal digits, with a minus sign when negative.\<close>

function str_nat :: "nat \<Rightarrow> pystr" where
  "str_nat n = (if n < 10 then [48 + n] else str_nat (n div 10) @ [48 + n mod 10])"
  by pat_completeness auto
termination
  by (relation "measure id") auto

declare str_nat.simps [simp del]

definition str_int :: "int \<Rightarrow> pystr" where
  "str_int i = (if i < 0 then 45 # str_nat (nat (- i)) else str_nat (nat i))"

section \<open>JSON\<close>

subsection \<open>Encoding\<close>

text \<open>
  \<^verbatim>\<open>json.dumps(obj)\<close> with its default arguments: items are separated by a comma and a
  space, keys and values by a colon and a space, and every character of a string outside
  the printable ASCII range is escaped (\<^verbatim>\<open>ensure_ascii\<close>), a character beyond the basic
  plane as a pair of surrogates. Hexadecimal digits are in lower case. A float is written
  as \<^verbatim>\<open>repr\<close> writes it: positionally when the decimal point falls within the range
  \<open>-4 < decpt \<le> 16\<close>, with an exponent of at least two digits otherwise.
\<close>

definition hex_digit :: "nat \<Rightarrow> nat" where
  "hex_digit d = (if d < 10 then 48 + d else 87 + d)"

definition hex4 :: "nat \<Rightarrow> pystr" where
  "hex4 n = [hex_digit (n div 4096 mod 16), hex_digit (n div 256 mod 16),
             hex_digit (n div 16 mod 16), hex_digit (n mod 16)]"

definition escape_char :: "nat \<Rightarrow> pystr" where
  "escape_char c =
     (if c = 92 then [92, 92]
      else if c = 34 then [92, 34]
      else if c = 8 then [92, 98]
      else if c = 12 then [92, 102]
      else if c = 10 then [92, 110]
      else if c = 13 then [92, 114]
      else if c = 9 then [92, 116]
      else if 32 \<le> c \<and> c \<le> 126 then [c]
      else if c < 65536 then [92, 117] @ hex4 c
      else [92, 117] @ hex4 (55296 + (c - 65536) div 1024 mod 1024)
         @ [92, 117] @ hex4 (56320 + (c - 65536) mod 1024))"

definition encode_basestring_ascii :: "pystr \<Rightarrow> pystr" where
  "encode_basestring_ascii s = [34] @ concat (map escape_char s) @ [34]"

function strip_zeros :: "nat \<Rightarrow> int \<Rightarrow> nat \<times> int" where
  "strip_zeros m e = (if m \<noteq> 0 \<and> m mod 10 = 0 then strip_zeros (m div 10) (e + 1) else (m, e))"
  by pat_completeness auto
termination
  by (relation "measure fst") auto

declare strip_zeros.simps [simp del]

definition pad2 :: "pystr \<Rightarrow> pystr" where
  "pad2 ds = (if length ds < 2 then 48 # ds else ds)"

definition float_repr :: "int \<Rightarrow> int \<Rightarrow> pystr" where
  "float_repr m e =
     (if m = 0 then u ''0.0''
      else
        (let (m', e') = strip_zeros (nat \<bar>m\<bar>) e;
             ds = str_nat m';
             n = int (length ds);
             decpt = n + e'
         in (if m < 0 then [45] else [])
            @ (if - 4 < decpt \<and> decpt \<le> 16 then
                 (if decpt \<le> 0 then u ''0.'' @ replicate (nat (- decpt)) 48 @ ds
                  else if n \<le> decpt then ds @ replicate (nat (decpt - n)) 48 @ u ''.0''
                  else take (nat decpt) ds @ [46] @ drop (nat decpt) ds)
               else hd ds # (if 1 < n then 46 # tl ds else [])
                    @ [101] @ (if decpt - 1 < 0 then [45] else [43])
                    @ pad2 (str_nat (nat \<bar>decpt - 1\<bar>)))))"

fun json_dumps :: "py \<Rightarrow> pystr"
  and dumps_items :: "py list \<Rightarrow> pystr"
  and dumps_pairs :: "(pystr \<times> py) list \<Rightarrow> pystr" where
  "json_dumps PyNone = u ''null''"
| "json_dumps (PyBool b) = (if b then u ''true'' else u ''false'')"
| "json_dumps (PyInt i) = str_int i"
| "json_dumps (PyFloat m e) = float_repr m e"
| "json_dumps PyNaN = u ''NaN''"
| "json_dumps (PyInfinity neg) = (if neg then u ''-Infinity'' else u ''Infinity'')"
| "json_dumps (PyStr s) = encode_basestring_ascii s"
| "json_dumps (PyList xs) = [91] @ dumps_items xs @ [93]"
| "json_dumps (PyDict kvs) = [123] @ dumps_pairs kvs @ [125]"
| "dumps_items [] = []"
| "dumps_items [x] = json_dumps x"
| "dumps_items (x # y # ys) = json_dumps x @ u '', '' @ dumps_items (y # ys)"
| "dumps_pairs [] = []"
| "dumps_pairs [(k, v)] = encode_basestring_ascii k @ u '': '' @ json_dumps v"
| "dumps_pairs ((k, v) # kv # kvs) =
     encode_basestring_ascii k @ u '': '' @ json_dumps v @ u '', '' @ dumps_pairs (kv # kvs)"

subsection \<open>Decoding\<close>

text \<open>
  \<^verbatim>\<open>json.loads(s)\<close> for a \<^verbatim>\<open>str\<close>, after the scanner of the \<^verbatim>\<open>json\<close> module:
  \<open>scanstring\<close> reads a string after its opening quote (strict mode: a control character
  is an error; a high surrogate escape directly followed by a low surrogate escape is one
  character), \<open>match_number\<close> reads the longest text of the shape
  \<^verbatim>\<open>-?(0|[1-9][0-9]*)(\.[0-9]+)?([eE][-+]?[0-9]+)?\<close>, and \<open>scan_once\<close> reads any value.
  A key that occurs twice in an object keeps its first place and takes the last value.
  The recursion of \<open>scan_once\<close> is on a counter that is set to the length of the text
  plus one, which the nesting of a text can never use up. Every failure of the decoder is
  a \<^verbatim>\<open>JSONDecodeError\<close>, so the functions of the scanner return an option.
\<close>

definition is_digit :: "nat \<Rightarrow> bool" where
  "is_digit c \<longleftrightarrow> 48 \<le> c \<and> c \<le> 57"

definition is_whitespace :: "nat \<Rightarrow> bool" where
  "is_whitespace c \<longleftrightarrow> c = 32 \<or> c = 9 \<or> c = 10 \<or> c = 13"

definition skip_ws :: "pystr \<Rightarrow> pystr" where
  "skip_ws s = dropWhile is_whitespace s"

definition hex_value :: "nat \<Rightarrow> nat option" where
  "hex_value c =
     (if 48 \<le> c \<and> c \<le> 57 then Some (c - 48)
      else if 97 \<le> c \<and> c \<le> 102 then Some (c - 87)
      else if 65 \<le> c \<and> c \<le> 70 then Some (c - 55)
      else None)"

definition decode_hex4 :: "nat \<Rightarrow> nat \<Rightarrow> nat \<Rightarrow> nat \<Rightarrow> nat option" where
  "decode_hex4 a b c d =
     (case (hex_value a, hex_value b, hex_value c, hex_value d) of
        (Some x, Some y, Some z, Some w) \<Rightarrow> Some (4096 * x + 256 * y + 16 * z + w)
      | _ \<Rightarrow> None)"

definition unescape :: "nat \<Rightarrow> nat option" where
  "unescape e =
     (if e = 34 then Some 34
      else if e = 92 then Some 92
      else if e = 47 then Some 47
      else if e = 98 then Some 8
      else if e = 102 then Some 12
      else if e = 110 then Some 10
      else if e = 114 then Some 13
      else if e = 116 then Some 9
      else None)"

fun scanstring :: "pystr \<Rightarrow> pystr \<Rightarrow> (pystr \<times> pystr) option" where
  "scanstring chunks [] = None"
| "scanstring chunks (c # cs) =
     (if c = 34 then Some (chunks, cs)
      else if c = 92 then
        (case cs of
           [] \<Rightarrow> None
         | e # es \<Rightarrow>
             if e = 117 then
               (case es of
                  h1 # h2 # h3 # h4 # rest \<Rightarrow>
                    (case decode_hex4 h1 h2 h3 h4 of
                       None \<Rightarrow> None
                     | Some uni \<Rightarrow>
                         if 55296 \<le> uni \<and> uni \<le> 56319 then
                           (case rest of
                              b # v # g1 # g2 # g3 # g4 # more \<Rightarrow>
                                if b = 92 \<and> v = 117 \<and> more \<noteq> [] then
                                  (case decode_hex4 g1 g2 g3 g4 of
                                     None \<Rightarrow> None
                                   | Some uni2 \<Rightarrow>
                                       if 56320 \<le> uni2 \<and> uni2 \<le> 57343
                                       then scanstring
                                         (chunks @ [65536 + (uni - 55296) * 1024 + (uni2 - 56320)])
                                         more
                                       else scanstring (chunks @ [uni]) rest)
                                else scanstring (chunks @ [uni]) rest
                            | _ \<Rightarrow> scanstring (chunks @ [uni]) rest)
                         else scanstring (chunks @ [uni]) rest)
                | _ \<Rightarrow> None)
             else
               (case unescape e of
                  None \<Rightarrow> None
                | Some ch \<Rightarrow> scanstring (chunks @ [ch]) es))
      else if c < 32 then None
      else scanstring (chunks @ [c]) cs)"

definition nat_of_digits :: "pystr \<Rightarrow> nat" where
  "nat_of_digits ds = foldl (\<lambda>a d. 10 * a + (d - 48)) 0 ds"

definition float_of_decimal :: "bool \<Rightarrow> nat \<Rightarrow> int \<Rightarrow> py" where
  "float_of_decimal neg m e =
     (if m = 0 then PyFloat 0 0
      else (let (m', e') = strip_zeros m e
            in PyFloat (if neg then - int m' else int m') e'))"

text \<open>The three parts of a number: the integer part (a single zero, or digits that do not
  start with zero), the fraction (a point and at least one digit) and the exponent (the
  letter, an optional sign and at least one digit). A part that is not there consumes
  nothing.\<close>

definition int_part :: "pystr \<Rightarrow> (pystr \<times> pystr) option" where
  "int_part s =
     (case s of
        [] \<Rightarrow> None
      | c # cs \<Rightarrow>
          if c = 48 then Some ([c], cs)
          else if is_digit c then Some (c # takeWhile is_digit cs, dropWhile is_digit cs)
          else None)"

definition frac_part :: "pystr \<Rightarrow> pystr \<times> pystr" where
  "frac_part s =
     (case s of
        p # d # r \<Rightarrow>
          if p = 46 \<and> is_digit d then (d # takeWhile is_digit r, dropWhile is_digit r)
          else ([], s)
      | _ \<Rightarrow> ([], s))"

definition exp_part :: "pystr \<Rightarrow> (bool \<times> pystr) option \<times> pystr" where
  "exp_part s =
     (case s of
        [] \<Rightarrow> (None, s)
      | x # r \<Rightarrow>
          if x = 101 \<or> x = 69 then
            (let neg = (r \<noteq> [] \<and> hd r = 45);
                 r1 = (if r \<noteq> [] \<and> (hd r = 43 \<or> hd r = 45) then tl r else r)
             in if r1 \<noteq> [] \<and> is_digit (hd r1)
                then (Some (neg, takeWhile is_digit r1), dropWhile is_digit r1)
                else (None, s))
          else (None, s))"

definition match_number :: "pystr \<Rightarrow> (py \<times> pystr) option" where
  "match_number s =
     (let neg = (s \<noteq> [] \<and> hd s = 45)
      in case int_part (if neg then tl s else s) of
           None \<Rightarrow> None
         | Some (int_digits, s2) \<Rightarrow>
             (let (frac, s3) = frac_part s2;
                  (ex, s4) = exp_part s3
              in if frac = [] \<and> ex = None then
                   Some (PyInt (if neg then - int (nat_of_digits int_digits)
                                else int (nat_of_digits int_digits)), s4)
                 else
                   Some (float_of_decimal neg (nat_of_digits (int_digits @ frac))
                      ((case ex of
                          None \<Rightarrow> 0
                        | Some (exp_neg, exp_digits) \<Rightarrow>
                            if exp_neg then - int (nat_of_digits exp_digits)
                            else int (nat_of_digits exp_digits))
                       - int (length frac)), s4)))"

definition dict_set :: "(pystr \<times> py) list \<Rightarrow> pystr \<Rightarrow> py \<Rightarrow> (pystr \<times> py) list" where
  "dict_set kvs k v =
     (if k \<in> fst ` set kvs then map (\<lambda>(k', v'). if k' = k then (k', v) else (k', v')) kvs
      else kvs @ [(k, v)])"

fun scan_once :: "nat \<Rightarrow> pystr \<Rightarrow> (py \<times> pystr) option"
  and parse_array :: "nat \<Rightarrow> pystr \<Rightarrow> py list \<Rightarrow> (py \<times> pystr) option"
  and parse_object :: "nat \<Rightarrow> pystr \<Rightarrow> (pystr \<times> py) list \<Rightarrow> (py \<times> pystr) option" where
  "scan_once 0 s = None"
| "scan_once (Suc n) [] = None"
| "scan_once (Suc n) (c # cs) =
     (if c = 34 then
        (case scanstring [] cs of None \<Rightarrow> None | Some (s, rest) \<Rightarrow> Some (PyStr s, rest))
      else if c = 123 then
        (case skip_ws cs of
           [] \<Rightarrow> None
         | d # ds \<Rightarrow> if d = 125 then Some (PyDict [], ds) else parse_object n (d # ds) [])
      else if c = 91 then
        (case skip_ws cs of
           [] \<Rightarrow> None
         | d # ds \<Rightarrow> if d = 93 then Some (PyList [], ds) else parse_array n (d # ds) [])
      else if c = 110 \<and> take 3 cs = u ''ull'' then Some (PyNone, drop 3 cs)
      else if c = 116 \<and> take 3 cs = u ''rue'' then Some (PyBool True, drop 3 cs)
      else if c = 102 \<and> take 4 cs = u ''alse'' then Some (PyBool False, drop 4 cs)
      else if c = 78 \<and> take 2 cs = u ''aN'' then Some (PyNaN, drop 2 cs)
      else if c = 73 \<and> take 7 cs = u ''nfinity'' then Some (PyInfinity False, drop 7 cs)
      else if c = 45 \<and> take 8 cs = u ''Infinity'' then Some (PyInfinity True, drop 8 cs)
      else match_number (c # cs))"
| "parse_array 0 s vals = None"
| "parse_array (Suc n) s vals =
     (case scan_once n s of
        None \<Rightarrow> None
      | Some (val, rest) \<Rightarrow>
          (case skip_ws rest of
             [] \<Rightarrow> None
           | d # ds \<Rightarrow>
               if d = 93 then Some (PyList (vals @ [val]), ds)
               else if d = 44 then parse_array n (skip_ws ds) (vals @ [val])
               else None))"
| "parse_object 0 s pairs = None"
| "parse_object (Suc n) s pairs =
     (case s of
        [] \<Rightarrow> None
      | q # s1 \<Rightarrow>
          if q \<noteq> 34 then None
          else
            (case scanstring [] s1 of
               None \<Rightarrow> None
             | Some (key, s2) \<Rightarrow>
                 (case skip_ws s2 of
                    [] \<Rightarrow> None
                  | colon # s3 \<Rightarrow>
                      if colon \<noteq> 58 then None
                      else
                        (case scan_once n (skip_ws s3) of
                           None \<Rightarrow> None
                         | Some (val, s4) \<Rightarrow>
                             (case skip_ws s4 of
                                [] \<Rightarrow> None
                              | d # ds \<Rightarrow>
                                  if d = 125 then Some (PyDict (dict_set pairs key val), ds)
                                  else if d = 44
                                    then parse_object n (skip_ws ds) (dict_set pairs key val)
                                  else None)))))"

definition json_loads :: "pystr \<Rightarrow> error + py" where
  "json_loads s =
     (if s \<noteq> [] \<and> hd s = 65279 then Inl JSONDecodeError
      else case scan_once (Suc (length s)) (skip_ws s) of
             None \<Rightarrow> Inl JSONDecodeError
           | Some (obj, rest) \<Rightarrow> if skip_ws rest = [] then Inr obj else Inl JSONDecodeError)"

section \<open>Monitoring the job status\<close>

text \<open>
  The cell that follows the job submission:
  \<^verbatim>\<open>
  status = ''
  while status not in ['Completed', 'Failed']:
      job_response = bedrock.get_model_invocation_job(jobIdentifier=jobArn)
      status = job_response['status']
      if status == 'Failed':
          print(job_response)
      elif status == 'Completed':
          print(datetime.now(), ": ", status)
          break
      else:
          print(datetime.now(), ": ", status)
          time.sleep(300)
  \<close>
  The service is the argument \<open>get\<close>: \<open>get k\<close> is what the \<open>k\<close>-th call of
  \<^verbatim>\<open>get_model_invocation_job\<close> answers, a response or an exception. What the loop does is
  recorded as a list of events (the time stamps that are printed are left out). The loop
  has no bound, so it is a partial function: \<open>None\<close> is a run that never ends.
\<close>

record job_response =
  status :: pystr
  message :: "pystr option"

datatype event =
    Print_response job_response
  | Print_status pystr
  | Sleep nat

partial_function (option) poll_loop ::
  "(nat \<Rightarrow> error + job_response) \<Rightarrow> nat \<Rightarrow> pystr \<Rightarrow> event list
    \<Rightarrow> (error + pystr \<times> event list) option" where
  "poll_loop get k st log =
    (if st \<in> set [u ''Completed'', u ''Failed''] then Some (Inr (st, log))
     else case get k of
       Inl e \<Rightarrow> Some (Inl e)
     | Inr job_response \<Rightarrow>
        (let st' = status job_response in
         if st' = u ''Failed''
           then poll_loop get (Suc k) st' (log @ [Print_response job_response])
         else if st' = u ''Completed''
           then Some (Inr (st', log @ [Print_status st']))
         else poll_loop get (Suc k) st' (log @ [Print_status st', Sleep 300])))"

definition poller :: "(nat \<Rightarrow> error + job_response) \<Rightarrow> (error + pystr \<times> event list) option" where
  "poller get = poll_loop get 0 [] []"

text \<open>The last thing printed: the whole response on failure, the status on completion.\<close>

definition final_event :: "job_response \<Rightarrow> event" where
  "final_event r = (if status r = u ''Failed'' then Print_response r else Print_status (status r))"

definition sleeps :: "event list \<Rightarrow> nat list" where
  "sleeps log = concat (map (\<lambda>e. case e of Sleep d \<Rightarrow> [d] | _ \<Rightarrow> []) log)"

text \<open>Three services used as examples: a job that completes at the third query, a job that
  fails at the second, and a job that stays in progress for ever.\<close>

definition resp :: "string \<Rightarrow> job_response" where
  "resp s = \<lparr>status = u s, message = None\<rparr>"

definition completing_job :: "nat \<Rightarrow> error + job_response" where
  "completing_job k =
    Inr (resp (if k = 0 then ''Submitted'' else if k = 1 then ''InProgress'' else ''Completed''))"

definition failing_job :: "nat \<Rightarrow> error + job_response" where
  "failing_job k = Inr (resp (if k = 0 then ''InProgress'' else ''Failed''))"

definition stuck_job :: "nat \<Rightarrow> error + job_response" where
  "stuck_job k = Inr (resp ''InProgress'')"

section \<open>Preparing the model inputs\<close>

text \<open>
  The notebook talks to S3 and reads the clock. Both are arguments of the model:
  \<^item> \<open>list_objects_v2 bucket prefix\<close> is the answer of the listing call, whose
    \<^verbatim>\<open>Contents\<close> entry is absent when nothing is listed;
  \<^item> \<open>get_object_text bucket key\<close> is the outcome of
    \<^verbatim>\<open>s3.get_object(Bucket=bucket, Key=key)['Body'].read().decode('utf-8')\<close>, the text
    of the object or the exception of the first step that fails;
  \<^item> \<open>now k\<close> is the \<open>k\<close>-th reading of \<^verbatim>\<open>datetime.now()\<close> in the run, in
    microseconds since the epoch (the resolution of a \<^verbatim>\<open>datetime\<close>), so that
    \<^verbatim>\<open>int(datetime.now().timestamp())\<close> is \<open>now k div 1000000\<close>.
\<close>

record s3_object =
  Key :: pystr

record list_response =
  Contents :: "s3_object list option"

record env =
  list_objects_v2 :: "pystr \<Rightarrow> pystr \<Rightarrow> error + list_response"
  get_object_text :: "pystr \<Rightarrow> pystr \<Rightarrow> error + pystr"
  now :: "nat \<Rightarrow> nat"

definition timestamp_seconds :: "nat \<Rightarrow> nat" where
  "timestamp_seconds micros = micros div 1000000"

text \<open>
  \<^verbatim>\<open>
  def prepare_model_inputs(bucket_name, prefix):
      model_inputs = []
      response = s3.list_objects_v2(Bucket=bucket_name, Prefix=prefix)
      for obj in response.get('Contents', []):
          file_path = obj['Key']
          file_obj = s3.get_object(Bucket=bucket_name, Key=file_path)
          file_content = file_obj['Body'].read().decode('utf-8')
          record_id = str(int(datetime.now().timestamp()))
          input_text = f"""Write an accurate 250 word gender-neutral summary of the following text without adding preamble or 
                          additonal information not present in the original text: {file_content}"""
          body = {
              "anthropic_version": "bedrock-2023-05-31",
              "messages": [{"role": 'user',
                             "content": [{'type': 'text', 'text': input_text}]}],
              "max_tokens": 300, "temperature": 0.1, "top_p": 0.1, "top_k": 100,
          }
          model_input = {"recordId": record_id, "modelInput": body}
          model_inputs.append(model_input)
      return model_inputs
  \<close>
  The template is one string literal that runs over two source lines: a line feed and the
  24 spaces of indentation are part of it.
\<close>

definition input_text :: "pystr \<Rightarrow> pystr" where
  "input_text file_content =
     u ''Write an accurate 250 word gender-neutral summary of the following text without adding preamble or ''
     @ [10] @ replicate 24 32
     @ u ''additonal information not present in the original text: ''
     @ file_content"

definition body :: "pystr \<Rightarrow> py" where
  "body text =
     PyDict [
       (u ''anthropic_version'', PyStr (u ''bedrock-2023-05-31'')),
       (u ''messages'', PyList [PyDict [
           (u ''role'', PyStr (u ''user'')),
           (u ''content'', PyList [PyDict [
               (u ''type'', PyStr (u ''text'')),
               (u ''text'', PyStr text)]])]]),
       (u ''max_tokens'', PyInt 300),
       (u ''temperature'', PyFloat 1 (- 1)),
       (u ''top_p'', PyFloat 1 (- 1)),
       (u ''top_k'', PyInt 100)]"

definition model_input :: "pystr \<Rightarrow> py \<Rightarrow> py" where
  "model_input record_id b = PyDict [(u ''recordId'', PyStr record_id), (u ''modelInput'', b)]"

text \<open>The \<^verbatim>\<open>for\<close> loop: \<open>k\<close> counts the clock readings made so far, and an exception
  of a read leaves the function at once.\<close>

fun prepare_loop :: "env \<Rightarrow> pystr \<Rightarrow> s3_object list \<Rightarrow> nat \<Rightarrow> py list \<Rightarrow> error + py list" where
  "prepare_loop env bucket_name [] k model_inputs = Inr model_inputs"
| "prepare_loop env bucket_name (obj # objs) k model_inputs =
     (case get_object_text env bucket_name (Key obj) of
        Inl e \<Rightarrow> Inl e
      | Inr file_content \<Rightarrow>
          (let record_id = str_nat (timestamp_seconds (now env k))
           in prepare_loop env bucket_name objs (Suc k)
                (model_inputs @ [model_input record_id (body (input_text file_content))])))"

definition contents :: "list_response \<Rightarrow> s3_object list" where
  "contents response = (case Contents response of None \<Rightarrow> [] | Some objs \<Rightarrow> objs)"

definition prepare_model_inputs :: "env \<Rightarrow> pystr \<Rightarrow> pystr \<Rightarrow> error + py list" where
  "prepare_model_inputs env bucket_name prefix =
     (case list_objects_v2 env bucket_name prefix of
        Inl e \<Rightarrow> Inl e
      | Inr response \<Rightarrow> prepare_loop env bucket_name (contents response) 0 [])"

definition record_ids :: "py list \<Rightarrow> py list" where
  "record_ids batch =
     concat (map (\<lambda>item. case item of PyDict kvs \<Rightarrow>
        (case map_of kvs (u ''recordId'') of None \<Rightarrow> [] | Some v \<Rightarrow> [v]) | _ \<Rightarrow> []) batch)"

section \<open>Uploading to S3\<close>

text \<open>
  \<^verbatim>\<open>
  def upload_to_s3(path, bucket_name, bucket_subfolder=None):
      if os.path.isfile(path):
          object_name = os.path.basename(path) if bucket_subfolder is None
                        else f"{bucket_subfolder}/{os.path.basename(path)}"
          try:
              s3.upload_file(path, bucket_name, object_name)
              print(f"Successfully uploaded {path} to {bucket_name}/{object_name}")
              return True
          except Exception as e:
              print(f"Error uploading {path} to S3: {e}")
              return False
      elif os.path.isdir(path):
          for root, dirs, files in os.walk(path):
              for file in files:
                  file_path = os.path.join(root, file)
                  relative_path = os.path.relpath(file_path, path)
                  object_name = relative_path if bucket_subfolder is None
                                else f"{bucket_subfolder}/{relative_path}"
                  try:
                      s3.upload_file(file_path, bucket_name, object_name)
                  except Exception as e:
                      print(f"Error uploading {file_path} to S3: {e}")
          return None
      else:
          print(f"{path} is not a file or directory.")
          return None
  \<close>
  The file system is an argument: what \<^verbatim>\<open>os.path.isfile\<close>, \<^verbatim>\<open>os.path.isdir\<close>,
  \<^verbatim>\<open>os.walk\<close> and \<^verbatim>\<open>os.path.relpath\<close> answer. So is \<open>upload_file\<close>, which gives
  for a call of \<^verbatim>\<open>s3.upload_file\<close> the exception it raises, or \<open>None\<close> when it
  succeeds. The function returns Python's \<^verbatim>\<open>True\<close>, \<^verbatim>\<open>False\<close> or \<^verbatim>\<open>None\<close> (a
  \<open>bool option\<close>) together with what it did: the calls of \<^verbatim>\<open>s3.upload_file\<close> and the
  messages printed, in order.
\<close>

record fs =
  isfile :: "pystr \<Rightarrow> bool"
  isdir :: "pystr \<Rightarrow> bool"
  walk :: "pystr \<Rightarrow> (pystr \<times> pystr list \<times> pystr list) list"
  relpath :: "pystr \<Rightarrow> pystr \<Rightarrow> pystr"

datatype upload_event =
    Upload_file pystr pystr pystr
  | Print_uploaded pystr pystr pystr
  | Print_upload_error pystr error
  | Print_not_file_or_dir pystr

text \<open>\<^verbatim>\<open>os.path.basename\<close> and \<^verbatim>\<open>os.path.join\<close> of \<^verbatim>\<open>posixpath\<close>.\<close>

definition basename :: "pystr \<Rightarrow> pystr" where
  "basename p = rev (takeWhile (\<lambda>c. c \<noteq> 47) (rev p))"

definition join :: "pystr \<Rightarrow> pystr \<Rightarrow> pystr" where
  "join a b =
     (if b \<noteq> [] \<and> hd b = 47 then b
      else if a = [] \<or> last a = 47 then a @ b
      else a @ [47] @ b)"

definition object_name_of :: "pystr option \<Rightarrow> pystr \<Rightarrow> pystr" where
  "object_name_of bucket_subfolder name =
     (case bucket_subfolder of None \<Rightarrow> name | Some sub \<Rightarrow> sub @ u ''/'' @ name)"

fun upload_files ::
  "fs \<Rightarrow> (pystr \<Rightarrow> pystr \<Rightarrow> pystr \<Rightarrow> error option) \<Rightarrow> pystr \<Rightarrow> pystr \<Rightarrow> pystr option
    \<Rightarrow> pystr \<Rightarrow> pystr list \<Rightarrow> upload_event list" where
  "upload_files fs upload_file path bucket_name bucket_subfolder root [] = []"
| "upload_files fs upload_file path bucket_name bucket_subfolder root (file # files) =
     (let file_path = join root file;
          relative_path = relpath fs file_path path;
          object_name = object_name_of bucket_subfolder relative_path
      in Upload_file file_path bucket_name object_name
         # (case upload_file file_path bucket_name object_name of
              None \<Rightarrow> []
            | Some e \<Rightarrow> [Print_upload_error file_path e])
         @ upload_files fs upload_file path bucket_name bucket_subfolder root files)"

fun upload_walk ::
  "fs \<Rightarrow> (pystr \<Rightarrow> pystr \<Rightarrow> pystr \<Rightarrow> error option) \<Rightarrow> pystr \<Rightarrow> pystr \<Rightarrow> pystr option
    \<Rightarrow> (pystr \<times> pystr list \<times> pystr list) list \<Rightarrow> upload_event list" where
  "upload_walk fs upload_file path bucket_name bucket_subfolder [] = []"
| "upload_walk fs upload_file path bucket_name bucket_subfolder ((root, dirs, files) # rest) =
     upload_files fs upload_file path bucket_name bucket_subfolder root files
     @ upload_walk fs upload_file path bucket_name bucket_subfolder rest"

definition upload_to_s3 ::
  "fs \<Rightarrow> (pystr \<Rightarrow> pystr \<Rightarrow> pystr \<Rightarrow> error option) \<Rightarrow> pystr \<Rightarrow> pystr \<Rightarrow> pystr option
    \<Rightarrow> bool option \<times> upload_event list" where
  "upload_to_s3 fs upload_file path bucket_name bucket_subfolder =
     (if isfile fs path then
        (let object_name = object_name_of bucket_subfolder (basename path)
         in case upload_file path bucket_name object_name of
              None \<Rightarrow> (Some True,
                [Upload_file path bucket_name object_name,
                 Print_uploaded path bucket_name object_name])
            | Some e \<Rightarrow> (Some False,
                [Upload_file path bucket_name object_name, Print_upload_error path e]))
      else if isdir fs path then
        (None, upload_walk fs upload_file path bucket_name bucket_subfolder (walk fs path))
      else (None, [Print_not_file_or_dir path]))"

text \<open>The list of calls of \<^verbatim>\<open>s3.upload_file\<close> among the events.\<close>

definition uploads :: "upload_event list \<Rightarrow> (pystr \<times> pystr \<times> pystr) list" where
  "uploads events =
     concat (map (\<lambda>e. case e of Upload_file p b k \<Rightarrow> [(p, b, k)] | _ \<Rightarrow> []) events)"

section \<open>Writing the JSONL file\<close>

text \<open>
  \<^verbatim>\<open>
  def write_jsonl(data, file_path):
      with open(file_path, 'w') as file:
          for item in data:
              json_str = json.dumps(item)
              file.write(json_str + '\n')
  \<close>
  The model gives the text that ends up in the file.
\<close>

fun write_jsonl :: "py list \<Rightarrow> pystr" where
  "write_jsonl [] = []"
| "write_jsonl (item # data) = (json_dumps item @ [10]) @ write_jsonl data"

text \<open>
  \<^verbatim>\<open>str.splitlines()\<close>: a line ends at a line feed, a carriage return (with the line
  feed that follows it, if any), or one of the other line boundaries of Python
  (\<^verbatim>\<open>\v\<close>, \<^verbatim>\<open>\f\<close>, \<^verbatim>\<open>\x1c\<close>, \<^verbatim>\<open>\x1d\<close>, \<^verbatim>\<open>\x1e\<close>, \<^verbatim>\<open>\x85\<close>, U+2028,
  U+2029); the boundaries are dropped, and a boundary at the very end opens no new
  line.
\<close>

definition is_linebreak :: "nat \<Rightarrow> bool" where
  "is_linebreak c \<longleftrightarrow> c \<in> set [10, 11, 12, 13, 28, 29, 30, 133, 8232, 8233]"

fun splitlines_from :: "pystr \<Rightarrow> pystr \<Rightarrow> pystr list" where
  "splitlines_from line [] = [line]"
| "splitlines_from line (c # cs) =
     (if is_linebreak c then
        (case cs of
           [] \<Rightarrow> [line]
         | d # r \<Rightarrow>
             if c = 13 \<and> d = 10 then (if r = [] then [line] else line # splitlines_from [] r)
             else line # splitlines_from [] (d # r))
      else splitlines_from (line @ [c]) cs)"

definition splitlines :: "pystr \<Rightarrow> pystr list" where
  "splitlines s = (if s = [] then [] else splitlines_from [] s)"



section \<open>Retrieving the output\<close>

text \<open>
  \<^verbatim>\<open>
  prefix = f"{model_input_summary_prefix}/{output_prefix}/{job_id}/"
  output_data = []
  try:
      object_key = f"{prefix}{filename}.out"
      response = s3.get_object(Bucket=bucket_name, Key=object_key)
      json_data = response['Body'].read().decode('utf-8')
      for line in json_data.splitlines():
          data = json.loads(line)
          output_entry = {
              'request_id': data['recordId'],
              'output_text': data['modelOutput']['content'][0]['text'],
              'observability': {
                  'input_tokens': data['modelOutput']['usage']['input_tokens'],
                  'output_tokens': data['modelOutput']['usage']['output_tokens'],
                  'model': data['modelOutput']['model'],
                  'stop_reason': data['modelOutput']['stop_reason'],
                  'request_id': data['recordId'],
                  'max_tokens': data['modelInput']['max_tokens'],
                  'temperature': data['modelInput']['temperature'],
                  'top_p': data['modelInput']['top_p'],
                  'top_k': data['modelInput']['top_k']
              }
          }
          output_data.append(output_entry)
      print(f"Successfully read {len(output_data)} JSON objects from S3.")
  except Exception as e:
      print(f"Error reading JSON file from S3: {e}")
  print("sample output:")
  print(output_entry)
  \<close>
  Subscription \<^verbatim>\<open>obj[key]\<close> with a string key and with an index, as Python defines it on
  the values that JSON gives.
\<close>

definition and_then :: "error + 'a \<Rightarrow> ('a \<Rightarrow> error + 'b) \<Rightarrow> error + 'b" where
  "and_then r f = (case r of Inl e \<Rightarrow> Inl e | Inr x \<Rightarrow> f x)"

fun item :: "py \<Rightarrow> pystr \<Rightarrow> error + py" where
  "item (PyDict kvs) key =
     (case map_of kvs key of None \<Rightarrow> Inl (KeyError (PyStr key)) | Some v \<Rightarrow> Inr v)"
| "item obj key = Inl TypeError"

fun item_at :: "py \<Rightarrow> nat \<Rightarrow> error + py" where
  "item_at (PyList xs) i = (if i < length xs then Inr (xs ! i) else Inl IndexError)"
| "item_at (PyStr s) i = (if i < length s then Inr (PyStr [s ! i]) else Inl IndexError)"
| "item_at (PyDict kvs) i = Inl (KeyError (PyInt (int i)))"
| "item_at obj i = Inl TypeError"

fun lookup_path :: "py \<Rightarrow> pystr list \<Rightarrow> error + py" where
  "lookup_path obj [] = Inr obj"
| "lookup_path obj (key # keys) = and_then (item obj key) (\<lambda>v. lookup_path v keys)"

text \<open>The dictionary display: its values are evaluated from left to right, and the first
  subscription that fails raises.\<close>

definition output_entry :: "py \<Rightarrow> error + py" where
  "output_entry data =
     and_then (item data (u ''recordId'')) (\<lambda>request_id.
     and_then (and_then (lookup_path data [u ''modelOutput'', u ''content''])
                (\<lambda>content. and_then (item_at content 0) (\<lambda>block. item block (u ''text''))))
       (\<lambda>output_text.
     and_then (lookup_path data [u ''modelOutput'', u ''usage'', u ''input_tokens'']) (\<lambda>input_tokens.
     and_then (lookup_path data [u ''modelOutput'', u ''usage'', u ''output_tokens'']) (\<lambda>output_tokens.
     and_then (lookup_path data [u ''modelOutput'', u ''model'']) (\<lambda>model.
     and_then (lookup_path data [u ''modelOutput'', u ''stop_reason'']) (\<lambda>stop_reason.
     and_then (item data (u ''recordId'')) (\<lambda>request_id2.
     and_then (lookup_path data [u ''modelInput'', u ''max_tokens'']) (\<lambda>max_tokens.
     and_then (lookup_path data [u ''modelInput'', u ''temperature'']) (\<lambda>temperature.
     and_then (lookup_path data [u ''modelInput'', u ''top_p'']) (\<lambda>top_p.
     and_then (lookup_path data [u ''modelInput'', u ''top_k'']) (\<lambda>top_k.
       Inr (PyDict [
         (u ''request_id'', request_id),
         (u ''output_text'', output_text),
         (u ''observability'', PyDict [
            (u ''input_tokens'', input_tokens),
            (u ''output_tokens'', output_tokens),
            (u ''model'', model),
            (u ''stop_reason'', stop_reason),
            (u ''request_id'', request_id2),
            (u ''max_tokens'', max_tokens),
            (u ''temperature'', temperature),
            (u ''top_p'', top_p),
            (u ''top_k'', top_k)])]))))))))))))"

text \<open>
  The \<^verbatim>\<open>for\<close> loop inside the \<^verbatim>\<open>try\<close>. It carries the list \<^verbatim>\<open>output_data\<close> and the
  variable \<^verbatim>\<open>output_entry\<close> (unbound until an entry has been built), and it stops at the
  first exception; both variables keep what they held when the exception was raised.
\<close>

fun retrieve_loop :: "pystr list \<Rightarrow> py list \<Rightarrow> py option \<Rightarrow> py list \<times> py option \<times> error option" where
  "retrieve_loop [] output_data entry = (output_data, entry, None)"
| "retrieve_loop (line # lines) output_data entry =
     (case json_loads line of
        Inl e \<Rightarrow> (output_data, entry, Some e)
      | Inr data \<Rightarrow>
          (case output_entry data of
             Inl e \<Rightarrow> (output_data, entry, Some e)
           | Inr new_entry \<Rightarrow> retrieve_loop lines (output_data @ [new_entry]) (Some new_entry)))"

text \<open>
  The variables of the notebook that the cell reads (the fields of \<open>config\<close>, named
  after them), and what the cell leaves behind: the
  list \<^verbatim>\<open>output_data\<close>, the requests sent to S3 and the lines printed, in order, and the
  exception that ends the cell, if any (in a fresh kernel the last \<^verbatim>\<open>print\<close> raises a
  \<^verbatim>\<open>NameError\<close> when no entry was built).
\<close>

record config =
  var_bucket_name :: pystr
  var_model_input_summary_prefix :: pystr
  var_output_prefix :: pystr
  var_job_id :: pystr
  var_filename :: pystr

datatype retrieval_event =
    Get_object pystr pystr
  | Print_read nat
  | Print_error error
  | Print_sample_output
  | Print_entry py

record retrieval =
  output_data :: "py list"
  events :: "retrieval_event list"
  raised :: "error option"

definition object_key :: "config \<Rightarrow> pystr" where
  "object_key cfg =
     (var_model_input_summary_prefix cfg @ u ''/'' @ var_output_prefix cfg @ u ''/'' @ var_job_id cfg @ u ''/'')
     @ var_filename cfg @ u ''.out''"

definition retrieve_output :: "env \<Rightarrow> config \<Rightarrow> retrieval" where
  "retrieve_output env cfg =
     (let (data, entry, err) =
            (case get_object_text env (var_bucket_name cfg) (object_key cfg) of
               Inl e \<Rightarrow> ([], None, Some e)
             | Inr json_data \<Rightarrow> retrieve_loop (splitlines json_data) [] None)
      in \<lparr>output_data = data,
          events =
            [Get_object (var_bucket_name cfg) (object_key cfg),
             (case err of None \<Rightarrow> Print_read (length data) | Some e \<Rightarrow> Print_error e),
             Print_sample_output]
            @ (case entry of None \<Rightarrow> [] | Some e \<Rightarrow> [Print_entry e]),
          raised = (case entry of None \<Rightarrow> Some (NameError (u ''output_entry'')) | Some e \<Rightarrow> None)\<rparr>)"

text \<open>The key under which the service stores the manifest of a job.\<close>

definition manifest_key :: "config \<Rightarrow> pystr" where
  "manifest_key cfg =
     var_model_input_summary_prefix cfg @ u ''/'' @ var_output_prefix cfg @ u ''/'' @ var_job_id cfg
     @ u ''/manifest.json.out''"

definition fetched_keys :: "retrieval_event list \<Rightarrow> pystr list" where
  "fetched_keys evs = concat (map (\<lambda>e. case e of Get_object b k \<Rightarrow> [k] | _ \<Rightarrow> []) evs)"

section \<open>Values that survive the round trip\<close>

text \<open>
  A string of Unicode scalar values: code points up to \<^verbatim>\<open>U+10FFFF\<close> that are not
  surrogates. These are the strings that \<^verbatim>\<open>bytes.decode('utf-8')\<close> can return.
\<close>

definition scalar :: "pystr \<Rightarrow> bool" where
  "scalar s \<longleftrightarrow> (\<forall>c\<in>set s. c < 1114112 \<and> \<not> (55296 \<le> c \<and> c \<le> 57343))"




section \<open>Example environments\<close>

text \<open>
  A prefix with two transcripts. The clock advances by a millisecond from one reading to
  the next, so both objects are read within the second 1700000000.
\<close>

definition two_transcripts :: env where
  "two_transcripts =
     \<lparr>list_objects_v2 = (\<lambda>bucket prefix.
         Inr \<lparr>Contents = Some [\<lparr>Key = u ''raw/a.txt''\<rparr>, \<lparr>Key = u ''raw/b.txt''\<rparr>]\<rparr>),
      get_object_text = (\<lambda>bucket key.
         if key = u ''raw/a.txt'' then Inr (u ''Hello'')
         else if key = u ''raw/b.txt'' then Inr (u ''Bye'')
         else Inl (ClientError (u ''NoSuchKey''))),
      now = (\<lambda>k. 1700000000000000 + 1000 * k)\<rparr>"

text \<open>The same prefix when the second object cannot be read.\<close>

definition second_unreadable :: env where
  "second_unreadable =
     two_transcripts\<lparr>get_object_text := (\<lambda>bucket key.
         if key = u ''raw/a.txt'' then Inr (u ''Hello'')
         else Inl (ClientError (u ''AccessDenied'')))\<rparr>"

text \<open>A prefix under which nothing is listed: the response has no \<^verbatim>\<open>Contents\<close>.\<close>

definition empty_prefix :: env where
  "empty_prefix = two_transcripts\<lparr>list_objects_v2 := (\<lambda>bucket prefix. Inr \<lparr>Contents = None\<rparr>)\<rparr>"

text \<open>
  A working directory with the batch file and a directory of two transcripts; for a file
  below the start directory \<^verbatim>\<open>os.path.relpath\<close> is the rest of the path. One S3 accepts
  every upload, the other refuses every upload.
\<close>

definition example_fs :: fs where
  "example_fs =
     \<lparr>isfile = (\<lambda>p. p = u ''./batch-1700000000.jsonl''),
      isdir = (\<lambda>p. p = u ''./unzipped_transcripts''),
      walk = (\<lambda>p. if p = u ''./unzipped_transcripts''
                   then [(u ''./unzipped_transcripts'', [], [u ''a.txt'', u ''b.txt''])] else []),
      relpath = (\<lambda>file_path start. drop (Suc (length start)) file_path)\<rparr>"

definition s3_accepts :: "pystr \<Rightarrow> pystr \<Rightarrow> pystr \<Rightarrow> error option" where
  "s3_accepts file_path bucket_name object_name = None"

definition s3_refuses :: "pystr \<Rightarrow> pystr \<Rightarrow> pystr \<Rightarrow> error option" where
  "s3_refuses file_path bucket_name object_name = Some (ClientError (u ''AccessDenied''))"

text \<open>
  One line of an output file, with the fields that the retrieval cell reads, the value it
  decodes to, and the entry the cell builds from it.
\<close>

definition good_line :: pystr where
  "good_line = u ''{\"modelInput\": {\"max_tokens\": 300, \"temperature\": 0.1, \"top_p\": 0.1, \"top_k\": 100}, \"modelOutput\": {\"model\": \"claude-3-haiku\", \"content\": [{\"type\": \"text\", \"text\": \"Summary\"}], \"stop_reason\": \"end_turn\", \"usage\": {\"input_tokens\": 57, \"output_tokens\": 4}}, \"recordId\": \"1700000000\"}''"

definition good_data :: py where
  "good_data = PyDict [
     (u ''modelInput'', PyDict [
        (u ''max_tokens'', PyInt 300),
        (u ''temperature'', PyFloat 1 (- 1)),
        (u ''top_p'', PyFloat 1 (- 1)),
        (u ''top_k'', PyInt 100)]),
     (u ''modelOutput'', PyDict [
        (u ''model'', PyStr (u ''claude-3-haiku'')),
        (u ''content'', PyList [PyDict [
           (u ''type'', PyStr (u ''text'')), (u ''text'', PyStr (u ''Summary''))]]),
        (u ''stop_reason'', PyStr (u ''end_turn'')),
        (u ''usage'', PyDict [(u ''input_tokens'', PyInt 57), (u ''output_tokens'', PyInt 4)])]),
     (u ''recordId'', PyStr (u ''1700000000''))]"

definition good_entry :: py where
  "good_entry = PyDict [
     (u ''request_id'', PyStr (u ''1700000000'')),
     (u ''output_text'', PyStr (u ''Summary'')),
     (u ''observability'', PyDict [
        (u ''input_tokens'', PyInt 57),
        (u ''output_tokens'', PyInt 4),
        (u ''model'', PyStr (u ''claude-3-haiku'')),
        (u ''stop_reason'', PyStr (u ''end_turn'')),
        (u ''request_id'', PyStr (u ''1700000000'')),
        (u ''max_tokens'', PyInt 300),
        (u ''temperature'', PyFloat 1 (- 1)),
        (u ''top_p'', PyFloat 1 (- 1)),
        (u ''top_k'', PyInt 100)])]"

text \<open>A line that is valid JSON but has no \<^verbatim>\<open>modelOutput\<close>.\<close>

definition bad_line :: pystr where
  "bad_line = u ''{\"recordId\": \"1700000001\"}''"

text \<open>
  The variables of a run, and two stores that hold the output file of its job: one with
  two good lines, one whose second line of three is the bad one.
\<close>

definition example_config :: config where
  "example_config =
     \<lparr>var_bucket_name = u ''my-bucket'',
      var_model_input_summary_prefix = u ''in'',
      var_output_prefix = u ''out'',
      var_job_id = u ''abc123'',
      var_filename = u ''batch-1700000000.jsonl''\<rparr>"

definition good_output :: env where
  "good_output =
     two_transcripts\<lparr>get_object_text := (\<lambda>bucket key.
         if key = u ''in/out/abc123/batch-1700000000.jsonl.out''
         then Inr (good_line @ 10 # good_line @ 10 # [])
         else Inl (ClientError (u ''NoSuchKey'')))\<rparr>"

definition bad_second_line :: env where
  "bad_second_line =
     two_transcripts\<lparr>get_object_text := (\<lambda>bucket key.
         if key = u ''in/out/abc123/batch-1700000000.jsonl.out''
         then Inr (good_line @ 10 # bad_line @ 10 # good_line @ 10 # [])
         else Inl (ClientError (u ''NoSuchKey'')))\<rparr>"

section \<open>Properties\<close>

subsection \<open>The poller\<close>

lemma terminal_iff: "st \<in> set [u ''Completed'', u ''Failed''] \<longleftrightarrow> st = u ''Completed'' \<or> st = u ''Failed''"
  by auto

lemma poll_loop_first_terminal:
  assumes "poll_loop get k st log = Some res"
  shows "\<forall>st' log'. res = Inr (st', log') \<longrightarrow>
     (if st \<in> set [u ''Completed'', u ''Failed''] then st' = st
      else \<exists>n r. k \<le> n \<and> get n = Inr r \<and> status r = st'
             \<and> st' \<in> set [u ''Completed'', u ''Failed'']
             \<and> (\<forall>j. k \<le> j \<and> j < n \<longrightarrow>
                   (\<exists>r'. get j = Inr r' \<and> status r' \<notin> set [u ''Completed'', u ''Failed''])))"
proof (rule poll_loop.raw_induct [OF _ assms, where P = "\<lambda>get k st log res.
    \<forall>st' log'. res = Inr (st', log') \<longrightarrow>
     (if st \<in> set [u ''Completed'', u ''Failed''] then st' = st
      else \<exists>n r. k \<le> n \<and> get n = Inr r \<and> status r = st'
             \<and> st' \<in> set [u ''Completed'', u ''Failed'']
             \<and> (\<forall>j. k \<le> j \<and> j < n \<longrightarrow>
                   (\<exists>r'. get j = Inr r' \<and> status r' \<notin> set [u ''Completed'', u ''Failed''])))"])
  fix f get k st log res
  assume IH: "\<And>get k st log res. f get k st log = Some res \<Longrightarrow>
      \<forall>st' log'. res = Inr (st', log') \<longrightarrow>
     (if st \<in> set [u ''Completed'', u ''Failed''] then st' = st
      else \<exists>n r. k \<le> n \<and> get n = Inr r \<and> status r = st'
             \<and> st' \<in> set [u ''Completed'', u ''Failed'']
             \<and> (\<forall>j. k \<le> j \<and> j < n \<longrightarrow>
                   (\<exists>r'. get j = Inr r' \<and> status r' \<notin> set [u ''Completed'', u ''Failed''])))"
    and body: "(if st \<in> set [u ''Completed'', u ''Failed''] then Some (Inr (st, log))
     else case get k of
       Inl e \<Rightarrow> Some (Inl e)
     | Inr job_response \<Rightarrow>
        (let st' = status job_response in
         if st' = u ''Failed''
           then f get (Suc k) st' (log @ [Print_response job_response])
         else if st' = u ''Completed''
           then Some (Inr (st', log @ [Print_status st']))
         else f get (Suc k) st' (log @ [Print_status st', Sleep 300]))) = Some res"
  show "\<forall>st' log'. res = Inr (st', log') \<longrightarrow>
     (if st \<in> set [u ''Completed'', u ''Failed''] then st' = st
      else \<exists>n r. k \<le> n \<and> get n = Inr r \<and> status r = st'
             \<and> st' \<in> set [u ''Completed'', u ''Failed'']
             \<and> (\<forall>j. k \<le> j \<and> j < n \<longrightarrow>
                   (\<exists>r'. get j = Inr r' \<and> status r' \<notin> set [u ''Completed'', u ''Failed''])))"
  proof (intro allI impI)
    fix st' log'
    assume res: "res = Inr (st', log')"
    show "if st \<in> set [u ''Completed'', u ''Failed''] then st' = st
      else \<exists>n r. k \<le> n \<and> get n = Inr r \<and> status r = st'
             \<and> st' \<in> set [u ''Completed'', u ''Failed'']
             \<and> (\<forall>j. k \<le> j \<and> j < n \<longrightarrow>
                   (\<exists>r'. get j = Inr r' \<and> status r' \<notin> set [u ''Completed'', u ''Failed'']))"
    proof (cases "st \<in> set [u ''Completed'', u ''Failed'']")
      case True
      with body res show ?thesis by simp
    next
      case nt: False
      show ?thesis
      proof (cases "get k")
        case (Inl e)
        with body nt res show ?thesis by simp
      next
        case (Inr r)
        have here: "k \<le> k \<and> get k = Inr r
            \<and> (\<forall>j. k \<le> j \<and> j < k \<longrightarrow>
                   (\<exists>r'. get j = Inr r' \<and> status r' \<notin> set [u ''Completed'', u ''Failed'']))"
          using Inr by auto
        show ?thesis
        proof (cases "status r \<in> set [u ''Completed'', u ''Failed'']")
          case fin: True
          have "st' = status r"
          proof (cases "status r = u ''Failed''")
            case True
            with body nt Inr have "f get (Suc k) (status r) (log @ [Print_response r]) = Some res"
              by (simp add: Let_def)
            from IH [OF this] res fin show ?thesis
              by simp
          next
            case False
            with fin have "status r = u ''Completed''" by simp
            with body nt Inr False res show ?thesis
              by (simp add: Let_def)
          qed
          with here fin have "k \<le> k \<and> get k = Inr r \<and> status r = st'
             \<and> st' \<in> set [u ''Completed'', u ''Failed'']
             \<and> (\<forall>j. k \<le> j \<and> j < k \<longrightarrow>
                   (\<exists>r'. get j = Inr r' \<and> status r' \<notin> set [u ''Completed'', u ''Failed'']))"
            by simp
          with nt show ?thesis
            by (simp only: if_False) blast
        next
          case cont: False
          with body nt Inr
          have "f get (Suc k) (status r) (log @ [Print_status (status r), Sleep 300]) = Some res"
            by (simp add: Let_def)
          from IH [OF this] res cont obtain n r1 where n: "Suc k \<le> n" "get n = Inr r1"
            "status r1 = st'" "st' \<in> set [u ''Completed'', u ''Failed'']"
            and before: "\<forall>j. Suc k \<le> j \<and> j < n \<longrightarrow>
                   (\<exists>r'. get j = Inr r' \<and> status r' \<notin> set [u ''Completed'', u ''Failed''])"
            by auto
          have "\<forall>j. k \<le> j \<and> j < n \<longrightarrow>
                   (\<exists>r'. get j = Inr r' \<and> status r' \<notin> set [u ''Completed'', u ''Failed''])"
          proof (intro allI impI)
            fix j
            assume j: "k \<le> j \<and> j < n"
            show "\<exists>r'. get j = Inr r' \<and> status r' \<notin> set [u ''Completed'', u ''Failed'']"
            proof (cases "j = k")
              case True
              with Inr cont show ?thesis by simp
            next
              case False
              with j have "Suc k \<le> j \<and> j < n" by simp
              with before show ?thesis by blast
            qed
          qed
          with n have "k \<le> n \<and> get n = Inr r1 \<and> status r1 = st'
             \<and> st' \<in> set [u ''Completed'', u ''Failed'']
             \<and> (\<forall>j. k \<le> j \<and> j < n \<longrightarrow>
                   (\<exists>r'. get j = Inr r' \<and> status r' \<notin> set [u ''Completed'', u ''Failed'']))"
            by simp
          with nt show ?thesis
            by (simp only: if_False) blast
        qed
      qed
    qed
  qed
qed

lemma poll_loop_terminal:
  assumes "poll_loop get k st log = Some res"
  shows "\<forall>st' log'. res = Inr (st', log') \<longrightarrow> st' = u ''Completed'' \<or> st' = u ''Failed''"
  using poll_loop_first_terminal [OF assms] by (auto split: if_splits)

lemma poll_loop_returns_obs:
  assumes "poll_loop get k st log = Some res"
  shows "st \<in> set [u ''Completed'', u ''Failed''] \<or>
     (\<exists>j\<ge>k. case get j of Inl e \<Rightarrow> True | Inr r \<Rightarrow> status r \<in> set [u ''Completed'', u ''Failed''])"
proof (rule poll_loop.raw_induct [OF _ assms, where P = "\<lambda>get k st log res.
    st \<in> set [u ''Completed'', u ''Failed''] \<or>
     (\<exists>j\<ge>k. case get j of Inl e \<Rightarrow> True | Inr r \<Rightarrow> status r \<in> set [u ''Completed'', u ''Failed''])"])
  fix f get k st log res
  assume IH: "\<And>get k st log res. f get k st log = Some res \<Longrightarrow>
      st \<in> set [u ''Completed'', u ''Failed''] \<or>
     (\<exists>j\<ge>k. case get j of Inl e \<Rightarrow> True | Inr r \<Rightarrow> status r \<in> set [u ''Completed'', u ''Failed''])"
    and body: "(if st \<in> set [u ''Completed'', u ''Failed''] then Some (Inr (st, log))
     else case get k of
       Inl e \<Rightarrow> Some (Inl e)
     | Inr job_response \<Rightarrow>
        (let st' = status job_response in
         if st' = u ''Failed''
           then f get (Suc k) st' (log @ [Print_response job_response])
         else if st' = u ''Completed''
           then Some (Inr (st', log @ [Print_status st']))
         else f get (Suc k) st' (log @ [Print_status st', Sleep 300]))) = Some res"
  show "st \<in> set [u ''Completed'', u ''Failed''] \<or>
     (\<exists>j\<ge>k. case get j of Inl e \<Rightarrow> True | Inr r \<Rightarrow> status r \<in> set [u ''Completed'', u ''Failed''])"
  proof (cases "st \<in> set [u ''Completed'', u ''Failed'']")
    case True then show ?thesis by blast
  next
    case nt: False
    show ?thesis
    proof (cases "get k")
      case (Inl e)
      then have "case get k of Inl e \<Rightarrow> True | Inr r \<Rightarrow> status r \<in> set [u ''Completed'', u ''Failed'']" by simp
      then show ?thesis by blast
    next
      case (Inr r)
      show ?thesis
      proof (cases "status r \<in> set [u ''Completed'', u ''Failed'']")
        case True
        with Inr have "case get k of Inl e \<Rightarrow> True | Inr r \<Rightarrow> status r \<in> set [u ''Completed'', u ''Failed'']" by simp
        then show ?thesis by blast
      next
        case False
        with body nt Inr have "f get (Suc k) (status r) (log @ [Print_status (status r), Sleep 300]) = Some res"
          by (simp add: Let_def)
        from IH [OF this] False obtain j where "j \<ge> Suc k"
          "case get j of Inl e \<Rightarrow> True | Inr r \<Rightarrow> status r \<in> set [u ''Completed'', u ''Failed'']"
          by blast
        then have "j \<ge> k \<and> (case get j of Inl e \<Rightarrow> True | Inr r \<Rightarrow> status r \<in> set [u ''Completed'', u ''Failed''])"
          by simp
        then show ?thesis by blast
      qed
    qed
  qed
qed


lemma poll_loop_trace:
  assumes "st \<notin> set [u ''Completed'', u ''Failed'']"
    and "\<forall>j<n. get (k + j) = Inr (obs (k + j)) \<and> status (obs (k + j)) \<notin> set [u ''Completed'', u ''Failed'']"
    and "get (k + n) = Inr (obs (k + n))"
    and "status (obs (k + n)) \<in> set [u ''Completed'', u ''Failed'']"
  shows "poll_loop get k st log =
    Some (Inr (status (obs (k + n)),
      log @ concat (map (\<lambda>j. [Print_status (status (obs j)), Sleep 300]) [k..<k + n])
          @ [final_event (obs (k + n))]))"
  using assms
proof (induction n arbitrary: k st log)
  case 0
  then show ?case
    by (subst poll_loop.simps, subst poll_loop.simps) (auto simp: Let_def final_event_def)
next
  case (Suc n)
  from Suc.prems(2) have here: "get k = Inr (obs k)"
    "status (obs k) \<notin> set [u ''Completed'', u ''Failed'']"
    by (metis add.right_neutral zero_less_Suc)+
  have rest: "\<forall>j<n. get (Suc k + j) = Inr (obs (Suc k + j))
      \<and> status (obs (Suc k + j)) \<notin> set [u ''Completed'', u ''Failed'']"
    using Suc.prems(2) by (metis Suc_less_eq add_Suc_shift)
  have step: "poll_loop get k st log =
      poll_loop get (Suc k) (status (obs k)) (log @ [Print_status (status (obs k)), Sleep 300])"
    using Suc.prems(1) here by (subst poll_loop.simps) (simp add: Let_def)
  have "poll_loop get (Suc k) (status (obs k)) (log @ [Print_status (status (obs k)), Sleep 300]) =
    Some (Inr (status (obs (Suc k + n)),
      (log @ [Print_status (status (obs k)), Sleep 300])
        @ concat (map (\<lambda>j. [Print_status (status (obs j)), Sleep 300]) [Suc k..<Suc k + n])
        @ [final_event (obs (Suc k + n))]))"
    using Suc.prems(3,4) by (intro Suc.IH here rest) simp_all
  then have "poll_loop get (Suc k) (status (obs k)) (log @ [Print_status (status (obs k)), Sleep 300]) =
    Some (Inr (status (obs (k + Suc n)),
      log @ concat (map (\<lambda>j. [Print_status (status (obs j)), Sleep 300]) (k # [Suc k..<Suc k + n]))
        @ [final_event (obs (k + Suc n))]))"
    by simp
  moreover have "[k..<k + Suc n] = k # [Suc k..<Suc k + n]"
    by (simp add: upt_conv_Cons del: upt_Suc)
  ultimately show ?case
    using step by (simp del: upt_Suc)
qed

lemma sleeps_append: "sleeps (xs @ ys) = sleeps xs @ sleeps ys"
  by (simp add: sleeps_def)

lemma sleeps_final_event: "sleeps [final_event r] = []"
  by (simp add: sleeps_def final_event_def)

lemma sleeps_rounds:
  "sleeps (concat (map (\<lambda>j. [Print_status (f j), Sleep 300]) js)) = replicate (length js) 300"
  by (induction js) (simp_all add: sleeps_def)

text \<open>
  C1. A run of the loop that ends normally ends on the first terminal status that the
  service answers: the status handed back is the status of some answer \<open>get n\<close>, that
  status is \<^verbatim>\<open>Completed\<close> or \<^verbatim>\<open>Failed\<close>, and every answer before it was a status
  that is not terminal (and not an exception). So no sequence of answers makes the loop
  stop on \<^verbatim>\<open>Submitted\<close>, \<^verbatim>\<open>InProgress\<close> or any other status, and the loop neither
  gives up early nor reports a status it has not observed. (Entered with a status that is
  already terminal, the loop returns it without a query; the cell enters it with the
  empty string. A run can also end with an exception of the service, which reports no
  status at all.)
\<close>

theorem poller_stops_only_on_terminal_status:
  assumes "poll_loop get k st log = Some (Inr (st', log'))"
  shows "(st' = u ''Completed'' \<or> st' = u ''Failed'')
    \<and> (if st \<in> set [u ''Completed'', u ''Failed''] then st' = st
       else \<exists>n r. k \<le> n \<and> get n = Inr r \<and> status r = st'
              \<and> (\<forall>j. k \<le> j \<and> j < n \<longrightarrow>
                    (\<exists>r'. get j = Inr r'
                        \<and> status r' \<notin> set [u ''Completed'', u ''Failed''])))"
proof
  from poll_loop_terminal [OF assms] show "st' = u ''Completed'' \<or> st' = u ''Failed''"
    by blast
next
  from poll_loop_first_terminal [OF assms]
  have "if st \<in> set [u ''Completed'', u ''Failed''] then st' = st
      else \<exists>n r. k \<le> n \<and> get n = Inr r \<and> status r = st'
             \<and> st' \<in> set [u ''Completed'', u ''Failed'']
             \<and> (\<forall>j. k \<le> j \<and> j < n \<longrightarrow>
                   (\<exists>r'. get j = Inr r' \<and> status r' \<notin> set [u ''Completed'', u ''Failed'']))"
    by blast
  then show "if st \<in> set [u ''Completed'', u ''Failed''] then st' = st
       else \<exists>n r. k \<le> n \<and> get n = Inr r \<and> status r = st'
              \<and> (\<forall>j. k \<le> j \<and> j < n \<longrightarrow>
                    (\<exists>r'. get j = Inr r'
                        \<and> status r' \<notin> set [u ''Completed'', u ''Failed'']))"
    by (auto split: if_splits)
qed

theorem poller_stops_only_on_terminal_status_witness:
  "poll_loop completing_job 0 [] [] = Some (Inr (u ''Completed'',
      [Print_status (u ''Submitted''), Sleep 300, Print_status (u ''InProgress''), Sleep 300,
       Print_status (u ''Completed'')]))
   \<and> (u ''Completed'' = u ''Completed'' \<or> u ''Completed'' = u ''Failed'')
   \<and> (\<exists>n r. completing_job n = Inr r \<and> status r = u ''Completed'' \<and> n = 2)"
proof -
  have run: "poll_loop completing_job 0 [] [] = Some (Inr (u ''Completed'',
      [Print_status (u ''Submitted''), Sleep 300, Print_status (u ''InProgress''), Sleep 300,
       Print_status (u ''Completed'')]))"
    by (simp add: poll_loop.simps completing_job_def resp_def Let_def u_def)
  have start: "[] \<notin> set [u ''Completed'', u ''Failed'']"
    by (simp add: u_def)
  from poller_stops_only_on_terminal_status [OF run] start
  obtain n r where n: "completing_job n = Inr r" "status r = u ''Completed''"
    and before: "\<forall>j. 0 \<le> j \<and> j < n \<longrightarrow>
        (\<exists>r'. completing_job j = Inr r' \<and> status r' \<notin> set [u ''Completed'', u ''Failed''])"
    by auto
  have "n \<noteq> 0"
  proof
    assume "n = 0"
    with n show False
      by (auto simp: completing_job_def resp_def u_def)
  qed
  moreover have "n \<noteq> 1"
  proof
    assume "n = 1"
    with n show False
      by (auto simp: completing_job_def resp_def u_def)
  qed
  moreover have "\<not> 2 < n"
  proof
    assume "2 < n"
    with before obtain r' where "completing_job 2 = Inr r'"
      "status r' \<notin> set [u ''Completed'', u ''Failed'']"
      by blast
    then show False
      by (auto simp: completing_job_def resp_def)
  qed
  ultimately have "n = 2"
    by simp
  with n have "\<exists>n r. completing_job n = Inr r \<and> status r = u ''Completed'' \<and> n = 2"
    by blast
  with run show ?thesis
    by simp
qed

text \<open>
  C2. Seen as a function of the sequence of answers of the service, the loop sleeps 300
  seconds right after each status that is not terminal and does not sleep after
  \<^verbatim>\<open>Completed\<close> or \<^verbatim>\<open>Failed\<close>: when the first terminal status is the \<open>n\<close>-th answer
  (counting from 0), the run is \<open>n\<close> rounds of printing the status and sleeping 300,
  then the final print, and it returns that terminal status. There is no ceiling on the
  number of rounds: when no answer is ever terminal, the loop does not return.
\<close>

theorem poller_sleeps_300_per_round_and_never_gives_up:
  "((\<forall>j. get j = Inr (obs j) \<and> status (obs j) \<notin> set [u ''Completed'', u ''Failed''])
      \<longrightarrow> poller get = None)
   \<and> ((\<forall>j<n. get j = Inr (obs j) \<and> status (obs j) \<notin> set [u ''Completed'', u ''Failed''])
        \<and> get n = Inr (obs n) \<and> status (obs n) \<in> set [u ''Completed'', u ''Failed'']
      \<longrightarrow> (\<exists>log. poller get = Some (Inr (status (obs n), log))
            \<and> log = concat (map (\<lambda>j. [Print_status (status (obs j)), Sleep 300]) [0..<n])
                    @ [final_event (obs n)]
            \<and> sleeps log = replicate n 300))"
proof (intro conjI impI)
  assume never: "\<forall>j. get j = Inr (obs j) \<and> status (obs j) \<notin> set [u ''Completed'', u ''Failed'']"
  show "poller get = None"
  proof (rule ccontr)
    assume "poller get \<noteq> None"
    then obtain res where "poll_loop get 0 [] [] = Some res"
      by (auto simp: poller_def)
    from poll_loop_returns_obs [OF this] obtain j where
      "case get j of Inl e \<Rightarrow> True | Inr r \<Rightarrow> status r \<in> set [u ''Completed'', u ''Failed'']"
      by (auto simp: u_def)
    with never show False
      by (auto split: sum.splits)
  qed
next
  assume fin: "(\<forall>j<n. get j = Inr (obs j) \<and> status (obs j) \<notin> set [u ''Completed'', u ''Failed''])
        \<and> get n = Inr (obs n) \<and> status (obs n) \<in> set [u ''Completed'', u ''Failed'']"
  have start: "[] \<notin> set [u ''Completed'', u ''Failed'']"
    by (simp add: u_def)
  have "poll_loop get 0 [] [] =
    Some (Inr (status (obs (0 + n)),
      [] @ concat (map (\<lambda>j. [Print_status (status (obs j)), Sleep 300]) [0..<0 + n])
          @ [final_event (obs (0 + n))]))"
    using fin by (intro poll_loop_trace start) simp_all
  then have "poller get = Some (Inr (status (obs n),
      concat (map (\<lambda>j. [Print_status (status (obs j)), Sleep 300]) [0..<n]) @ [final_event (obs n)]))"
    by (simp add: poller_def)
  moreover have "sleeps (concat (map (\<lambda>j. [Print_status (status (obs j)), Sleep 300]) [0..<n])
      @ [final_event (obs n)]) = replicate n 300"
    by (simp add: sleeps_append sleeps_final_event sleeps_rounds)
  ultimately show "\<exists>log. poller get = Some (Inr (status (obs n), log))
            \<and> log = concat (map (\<lambda>j. [Print_status (status (obs j)), Sleep 300]) [0..<n])
                    @ [final_event (obs n)]
            \<and> sleeps log = replicate n 300"
    by blast
qed

theorem poller_sleeps_300_per_round_and_never_gives_up_witness:
  "poller stuck_job = None
   \<and> poller failing_job = Some (Inr (u ''Failed'',
        [Print_status (u ''InProgress''), Sleep 300, Print_response (resp ''Failed'')]))
   \<and> sleeps [Print_status (u ''InProgress''), Sleep 300, Print_response (resp ''Failed'')] = [300]"
proof -
  have "\<forall>j. stuck_job j = Inr (resp ''InProgress'')
      \<and> status (resp ''InProgress'') \<notin> set [u ''Completed'', u ''Failed'']"
    by (simp add: stuck_job_def resp_def u_def)
  with poller_sleeps_300_per_round_and_never_gives_up
    [of stuck_job "\<lambda>j. resp ''InProgress''" 0]
  have stuck: "poller stuck_job = None"
    by blast
  let ?obs = "\<lambda>k::nat. resp (if k = 0 then ''InProgress'' else ''Failed'')"
  have "(\<forall>j<1. failing_job j = Inr (?obs j) \<and> status (?obs j) \<notin> set [u ''Completed'', u ''Failed''])
      \<and> failing_job 1 = Inr (?obs 1) \<and> status (?obs 1) \<in> set [u ''Completed'', u ''Failed'']"
    by (simp add: failing_job_def resp_def u_def)
  with poller_sleeps_300_per_round_and_never_gives_up [of failing_job ?obs 1]
  have "\<exists>log. poller failing_job = Some (Inr (status (?obs 1), log))
            \<and> log = concat (map (\<lambda>j. [Print_status (status (?obs j)), Sleep 300]) [0..<1])
                    @ [final_event (?obs 1)]
            \<and> sleeps log = replicate 1 300"
    by blast
  then have "poller failing_job = Some (Inr (u ''Failed'',
        [Print_status (u ''InProgress''), Sleep 300, Print_response (resp ''Failed'')]))
    \<and> sleeps [Print_status (u ''InProgress''), Sleep 300, Print_response (resp ''Failed'')] = [300]"
    by (simp add: final_event_def resp_def)
  with stuck show ?thesis
    by blast
qed

subsection \<open>The input collector\<close>

lemma prepare_loop_all_read:
  "length texts = length objs \<Longrightarrow>
   \<forall>i<length objs. get_object_text env bucket_name (Key (objs ! i)) = Inr (texts ! i) \<Longrightarrow>
   prepare_loop env bucket_name objs k model_inputs =
     Inr (model_inputs @ map (\<lambda>i. model_input (str_nat (timestamp_seconds (now env (k + i)))) (body (input_text (texts ! i)))) [0..<length objs])"
proof (induction objs arbitrary: texts k model_inputs)
  case Nil
  then show ?case by simp
next
  case (Cons obj objs)
  then obtain t ts where texts: "texts = t # ts"
    by (cases texts) auto
  from Cons.prems have first: "get_object_text env bucket_name (Key obj) = Inr t"
    by (auto simp: texts)
  from Cons.prems have len: "length ts = length objs"
    by (simp add: texts)
  from Cons.prems have "\<forall>i<length objs. get_object_text env bucket_name (Key (objs ! i)) = Inr (ts ! i)"
    by (auto simp: texts)
  with len have "prepare_loop env bucket_name objs (Suc k) (model_inputs @ [model_input (str_nat (timestamp_seconds (now env k))) (body (input_text t))]) =
     Inr ((model_inputs @ [model_input (str_nat (timestamp_seconds (now env k))) (body (input_text t))])
          @ map (\<lambda>i. model_input (str_nat (timestamp_seconds (now env (Suc k + i)))) (body (input_text (ts ! i)))) [0..<length objs])"
    by (rule Cons.IH)
  moreover have "map (\<lambda>i. model_input (str_nat (timestamp_seconds (now env (k + i)))) (body (input_text (texts ! i)))) [0..<length (obj # objs)] =
     model_input (str_nat (timestamp_seconds (now env k))) (body (input_text t)) # map (\<lambda>i. model_input (str_nat (timestamp_seconds (now env (Suc k + i)))) (body (input_text (ts ! i)))) [0..<length objs]"
    by (simp add: texts upt_conv_Cons map_Suc_upt [symmetric] del: upt_Suc)
  ultimately show ?case
    using first by (simp add: Let_def)
qed

lemma prepare_loop_failed_read:
  "obj \<in> set objs \<Longrightarrow> get_object_text env bucket_name (Key obj) = Inl e \<Longrightarrow>
   \<exists>obj' e'. obj' \<in> set objs \<and> get_object_text env bucket_name (Key obj') = Inl e'
      \<and> prepare_loop env bucket_name objs k model_inputs = Inl e'"
proof (induction objs arbitrary: k model_inputs)
  case Nil
  then show ?case by simp
next
  case (Cons o1 objs)
  show ?case
  proof (cases "get_object_text env bucket_name (Key o1)")
    case (Inl e1)
    then have "prepare_loop env bucket_name (o1 # objs) k model_inputs = Inl e1"
      by simp
    with Inl have "o1 \<in> set (o1 # objs) \<and> get_object_text env bucket_name (Key o1) = Inl e1
      \<and> prepare_loop env bucket_name (o1 # objs) k model_inputs = Inl e1"
      by simp
    then show ?thesis
      by blast
  next
    case (Inr t)
    with Cons.prems have "obj \<in> set objs"
      by auto
    from Cons.IH [OF this Cons.prems(2)]
    obtain obj' e' where "obj' \<in> set objs" "get_object_text env bucket_name (Key obj') = Inl e'"
      "prepare_loop env bucket_name objs (Suc k)
         (model_inputs @ [model_input (str_nat (timestamp_seconds (now env k))) (body (input_text t))]) = Inl e'"
      by blast
    with Inr have "obj' \<in> set (o1 # objs) \<and> get_object_text env bucket_name (Key obj') = Inl e'
      \<and> prepare_loop env bucket_name (o1 # objs) k model_inputs = Inl e'"
      by (simp add: Let_def)
    then show ?thesis
      by blast
  qed
qed


text \<open>
  C3. The claim is that the record identifiers of one batch are pairwise distinct. The
  identifier is the clock in whole seconds, so two objects read within the same second
  get the same identifier: in the example below the batch has two records and both carry
  \<^verbatim>\<open>1700000000\<close>.
\<close>

theorem record_ids_repeat_within_one_second:
  "\<exists>batch. prepare_model_inputs two_transcripts (u ''my-bucket'') (u ''raw/'') = Inr batch
     \<and> length batch = 2
     \<and> record_ids batch = [PyStr (u ''1700000000''), PyStr (u ''1700000000'')]
     \<and> \<not> distinct (record_ids batch)"
proof -
  have "prepare_model_inputs two_transcripts (u ''my-bucket'') (u ''raw/'') = Inr
    [PyDict [(u ''recordId'', PyStr (u ''1700000000'')),
             (u ''modelInput'', body (input_text (u ''Hello'')))],
     PyDict [(u ''recordId'', PyStr (u ''1700000000'')),
             (u ''modelInput'', body (input_text (u ''Bye'')))]]"
    by (simp add: prepare_model_inputs_def two_transcripts_def contents_def Let_def
        model_input_def timestamp_seconds_def str_nat.simps u_def)
  moreover have "record_ids
    [PyDict [(u ''recordId'', PyStr (u ''1700000000'')),
             (u ''modelInput'', body (input_text (u ''Hello'')))],
     PyDict [(u ''recordId'', PyStr (u ''1700000000'')),
             (u ''modelInput'', body (input_text (u ''Bye'')))]]
    = [PyStr (u ''1700000000''), PyStr (u ''1700000000'')]"
    by (simp add: record_ids_def u_def)
  ultimately show ?thesis
    by simp
qed

text \<open>
  C5. When the listing succeeds and the read of some listed object fails, the collector
  returns no batch: the call ends with the exception of a failed read (that of the first
  object that cannot be read), and the records built so far are lost with it.
\<close>

theorem prepare_model_inputs_fails_fast:
  assumes "list_objects_v2 env bucket_name prefix = Inr response"
    and "obj \<in> set (contents response)"
    and "get_object_text env bucket_name (Key obj) = Inl e"
  shows "\<exists>obj' e'. obj' \<in> set (contents response)
      \<and> get_object_text env bucket_name (Key obj') = Inl e'
      \<and> prepare_model_inputs env bucket_name prefix = Inl e'"
  using prepare_loop_failed_read [OF assms(2,3), of 0 "[]"] assms(1)
  by (simp add: prepare_model_inputs_def)

theorem prepare_model_inputs_fails_fast_witness:
  "list_objects_v2 second_unreadable (u ''my-bucket'') (u ''raw/'')
     = Inr \<lparr>Contents = Some [\<lparr>Key = u ''raw/a.txt''\<rparr>, \<lparr>Key = u ''raw/b.txt''\<rparr>]\<rparr>
   \<and> get_object_text second_unreadable (u ''my-bucket'') (u ''raw/b.txt'')
     = Inl (ClientError (u ''AccessDenied''))
   \<and> prepare_model_inputs second_unreadable (u ''my-bucket'') (u ''raw/'')
     = Inl (ClientError (u ''AccessDenied''))"
proof -
  let ?response = "\<lparr>Contents = Some [\<lparr>Key = u ''raw/a.txt''\<rparr>, \<lparr>Key = u ''raw/b.txt''\<rparr>]\<rparr>"
  have listing: "list_objects_v2 second_unreadable (u ''my-bucket'') (u ''raw/'') = Inr ?response"
    by (simp add: second_unreadable_def two_transcripts_def)
  have listed: "\<lparr>Key = u ''raw/b.txt''\<rparr> \<in> set (contents ?response)"
    by (simp add: contents_def)
  have unreadable: "get_object_text second_unreadable (u ''my-bucket'')
      (Key \<lparr>Key = u ''raw/b.txt''\<rparr>) = Inl (ClientError (u ''AccessDenied''))"
    by (simp add: second_unreadable_def two_transcripts_def u_def)
  from prepare_model_inputs_fails_fast [OF listing listed unreadable]
  obtain obj' :: s3_object and e' where
    "get_object_text second_unreadable (u ''my-bucket'') (Key obj') = Inl e'"
    "prepare_model_inputs second_unreadable (u ''my-bucket'') (u ''raw/'') = Inl e'"
    by auto
  moreover from this(1) have "e' = ClientError (u ''AccessDenied'')"
    by (simp add: second_unreadable_def two_transcripts_def split: if_splits)
  ultimately show ?thesis
    using listing unreadable by simp
qed

text \<open>
  C6. When the listing succeeds and every listed object can be read, the batch has exactly
  one record per listed object, in listing order. The record of the \<open>i\<close>-th object is
  \<^verbatim>\<open>{"recordId": id, "modelInput": body}\<close>, where \<open>id\<close> is the clock reading of that
  iteration in whole seconds and the body carries the instruction template followed by
  the text of the object, with \<^verbatim>\<open>max_tokens\<close> 300, \<^verbatim>\<open>temperature\<close> 0.1,
  \<^verbatim>\<open>top_p\<close> 0.1 and \<^verbatim>\<open>top_k\<close> 100.
\<close>

theorem prepare_model_inputs_one_record_per_object:
  assumes "list_objects_v2 env bucket_name prefix = Inr response"
    and "length texts = length (contents response)"
    and "\<forall>i<length (contents response).
           get_object_text env bucket_name (Key (contents response ! i)) = Inr (texts ! i)"
  shows "prepare_model_inputs env bucket_name prefix = Inr (map (\<lambda>i.
      PyDict [
        (u ''recordId'', PyStr (str_nat (now env i div 1000000))),
        (u ''modelInput'', PyDict [
           (u ''anthropic_version'', PyStr (u ''bedrock-2023-05-31'')),
           (u ''messages'', PyList [PyDict [
               (u ''role'', PyStr (u ''user'')),
               (u ''content'', PyList [PyDict [
                   (u ''type'', PyStr (u ''text'')),
                   (u ''text'', PyStr (
                      u ''Write an accurate 250 word gender-neutral summary of the following text without adding preamble or ''
                      @ [10] @ replicate 24 32
                      @ u ''additonal information not present in the original text: ''
                      @ texts ! i))]])]]),
           (u ''max_tokens'', PyInt 300),
           (u ''temperature'', PyFloat 1 (- 1)),
           (u ''top_p'', PyFloat 1 (- 1)),
           (u ''top_k'', PyInt 100)])])
      [0..<length (contents response)])"
  using prepare_loop_all_read [OF assms(2,3), of 0 "[]"] assms(1)
  by (simp add: prepare_model_inputs_def model_input_def body_def input_text_def
      timestamp_seconds_def)

theorem prepare_model_inputs_one_record_per_object_witness:
  "prepare_model_inputs two_transcripts (u ''my-bucket'') (u ''raw/'') = Inr
     [model_input (u ''1700000000'') (body (input_text (u ''Hello''))),
      model_input (u ''1700000000'') (body (input_text (u ''Bye'')))]"
proof -
  let ?response = "\<lparr>Contents = Some [\<lparr>Key = u ''raw/a.txt''\<rparr>, \<lparr>Key = u ''raw/b.txt''\<rparr>]\<rparr>"
  let ?texts = "[u ''Hello'', u ''Bye'']"
  have listing: "list_objects_v2 two_transcripts (u ''my-bucket'') (u ''raw/'') = Inr ?response"
    by (simp add: two_transcripts_def)
  have len: "length ?texts = length (contents ?response)"
    by (simp add: contents_def)
  have reads: "\<forall>i<length (contents ?response).
      get_object_text two_transcripts (u ''my-bucket'') (Key (contents ?response ! i)) = Inr (?texts ! i)"
    by (simp add: contents_def two_transcripts_def less_Suc_eq u_def)
  have "str_nat (now two_transcripts 0 div 1000000) = u ''1700000000''"
    "str_nat (now two_transcripts 1 div 1000000) = u ''1700000000''"
    by (simp_all add: two_transcripts_def str_nat.simps u_def)
  with prepare_model_inputs_one_record_per_object [OF listing len reads]
  show ?thesis
    by (simp add: contents_def model_input_def body_def input_text_def)
qed

subsection \<open>Uploading\<close>

lemma upload_files_events:
  "upload_files fs upload_file path bucket_name bucket_subfolder root files =
     concat (map (\<lambda>file.
        Upload_file (join root file) bucket_name
            (object_name_of bucket_subfolder (relpath fs (join root file) path))
        # (case upload_file (join root file) bucket_name
                  (object_name_of bucket_subfolder (relpath fs (join root file) path)) of
             None \<Rightarrow> [] | Some e \<Rightarrow> [Print_upload_error (join root file) e])) files)"
  by (induction files) (simp_all add: Let_def)

lemma upload_walk_events:
  "upload_walk fs upload_file path bucket_name bucket_subfolder triples =
     concat (map (\<lambda>(root, dirs, files).
        upload_files fs upload_file path bucket_name bucket_subfolder root files) triples)"
  by (induction triples) auto

lemma uploads_append: "uploads (xs @ ys) = uploads xs @ uploads ys"
  by (simp add: uploads_def)

lemma uploads_upload_files:
  "uploads (upload_files fs upload_file path bucket_name bucket_subfolder root files) =
     map (\<lambda>file. (join root file, bucket_name,
            object_name_of bucket_subfolder (relpath fs (join root file) path))) files"
  by (induction files) (auto simp: Let_def uploads_def split: option.splits)

lemma uploads_upload_walk:
  "uploads (upload_walk fs upload_file path bucket_name bucket_subfolder triples) =
     concat (map (\<lambda>(root, dirs, files).
       map (\<lambda>file. (join root file, bucket_name,
            object_name_of bucket_subfolder (relpath fs (join root file) path))) files) triples)"
proof (induction triples)
  case Nil
  show ?case by (simp add: uploads_def)
next
  case (Cons t triples)
  obtain root dirs files where "t = (root, dirs, files)"
    by (cases t) auto
  with Cons show ?case
    by (simp add: uploads_append uploads_upload_files)
qed


text \<open>
  C10. \<^verbatim>\<open>upload_to_s3\<close> returns \<^verbatim>\<open>True\<close> exactly when the path is a file and its upload
  succeeds, and \<^verbatim>\<open>False\<close> exactly when the path is a file and its upload raises. For
  a directory it returns \<^verbatim>\<open>None\<close> whatever the uploads do: every file of the walk is
  tried, in order, and a failed upload leaves nothing but a printed message, so the
  returned value is the same when all uploads succeed and when all fail. For a path that
  is neither it returns \<^verbatim>\<open>None\<close>, prints one message and uploads nothing.
\<close>

theorem upload_to_s3_return_value:
  "(fst (upload_to_s3 fs upload_file path bucket_name bucket_subfolder) = Some True
      \<longleftrightarrow> isfile fs path
          \<and> upload_file path bucket_name (object_name_of bucket_subfolder (basename path)) = None)
   \<and> (fst (upload_to_s3 fs upload_file path bucket_name bucket_subfolder) = Some False
      \<longleftrightarrow> isfile fs path
          \<and> upload_file path bucket_name (object_name_of bucket_subfolder (basename path)) \<noteq> None)
   \<and> (\<not> isfile fs path \<and> isdir fs path \<longrightarrow>
        fst (upload_to_s3 fs upload_file path bucket_name bucket_subfolder) = None
        \<and> snd (upload_to_s3 fs upload_file path bucket_name bucket_subfolder) =
            concat (map (\<lambda>(root, dirs, files). concat (map (\<lambda>file.
              Upload_file (join root file) bucket_name
                (object_name_of bucket_subfolder (relpath fs (join root file) path))
              # (case upload_file (join root file) bucket_name
                       (object_name_of bucket_subfolder (relpath fs (join root file) path)) of
                   None \<Rightarrow> []
                 | Some e \<Rightarrow> [Print_upload_error (join root file) e])) files)) (walk fs path))
        \<and> uploads (snd (upload_to_s3 fs upload_file path bucket_name bucket_subfolder)) =
            concat (map (\<lambda>(root, dirs, files). map (\<lambda>file.
              (join root file, bucket_name,
               object_name_of bucket_subfolder (relpath fs (join root file) path))) files)
              (walk fs path)))
   \<and> (\<not> isfile fs path \<and> \<not> isdir fs path \<longrightarrow>
        upload_to_s3 fs upload_file path bucket_name bucket_subfolder
          = (None, [Print_not_file_or_dir path]))"
proof (intro conjI impI)
  show "fst (upload_to_s3 fs upload_file path bucket_name bucket_subfolder) = Some True
      \<longleftrightarrow> isfile fs path
          \<and> upload_file path bucket_name (object_name_of bucket_subfolder (basename path)) = None"
    by (auto simp: upload_to_s3_def Let_def split: option.splits)
  show "fst (upload_to_s3 fs upload_file path bucket_name bucket_subfolder) = Some False
      \<longleftrightarrow> isfile fs path
          \<and> upload_file path bucket_name (object_name_of bucket_subfolder (basename path)) \<noteq> None"
    by (auto simp: upload_to_s3_def Let_def split: option.splits)
next
  assume "\<not> isfile fs path \<and> isdir fs path"
  then have dir: "upload_to_s3 fs upload_file path bucket_name bucket_subfolder =
      (None, upload_walk fs upload_file path bucket_name bucket_subfolder (walk fs path))"
    by (simp add: upload_to_s3_def)
  show "fst (upload_to_s3 fs upload_file path bucket_name bucket_subfolder) = None"
    by (simp add: dir)
  show "snd (upload_to_s3 fs upload_file path bucket_name bucket_subfolder) =
            concat (map (\<lambda>(root, dirs, files). concat (map (\<lambda>file.
              Upload_file (join root file) bucket_name
                (object_name_of bucket_subfolder (relpath fs (join root file) path))
              # (case upload_file (join root file) bucket_name
                       (object_name_of bucket_subfolder (relpath fs (join root file) path)) of
                   None \<Rightarrow> []
                 | Some e \<Rightarrow> [Print_upload_error (join root file) e])) files)) (walk fs path))"
    by (simp add: dir upload_walk_events upload_files_events)
  show "uploads (snd (upload_to_s3 fs upload_file path bucket_name bucket_subfolder)) =
            concat (map (\<lambda>(root, dirs, files). map (\<lambda>file.
              (join root file, bucket_name,
               object_name_of bucket_subfolder (relpath fs (join root file) path))) files)
              (walk fs path))"
    by (simp add: dir uploads_upload_walk)
next
  assume "\<not> isfile fs path \<and> \<not> isdir fs path"
  then show "upload_to_s3 fs upload_file path bucket_name bucket_subfolder
          = (None, [Print_not_file_or_dir path])"
    by (simp add: upload_to_s3_def)
qed

theorem upload_to_s3_return_value_witness:
  "fst (upload_to_s3 example_fs s3_accepts (u ''./batch-1700000000.jsonl'') (u ''my-bucket'')
          (Some (u ''in''))) = Some True
   \<and> fst (upload_to_s3 example_fs s3_refuses (u ''./batch-1700000000.jsonl'') (u ''my-bucket'')
          (Some (u ''in''))) = Some False
   \<and> upload_to_s3 example_fs s3_refuses (u ''./unzipped_transcripts'') (u ''my-bucket'')
          (Some (u ''raw'')) =
       (None,
        [Upload_file (u ''./unzipped_transcripts/a.txt'') (u ''my-bucket'') (u ''raw/a.txt''),
         Print_upload_error (u ''./unzipped_transcripts/a.txt'') (ClientError (u ''AccessDenied'')),
         Upload_file (u ''./unzipped_transcripts/b.txt'') (u ''my-bucket'') (u ''raw/b.txt''),
         Print_upload_error (u ''./unzipped_transcripts/b.txt'') (ClientError (u ''AccessDenied''))])
   \<and> fst (upload_to_s3 example_fs s3_accepts (u ''./unzipped_transcripts'') (u ''my-bucket'')
          (Some (u ''raw''))) = None
   \<and> upload_to_s3 example_fs s3_accepts (u ''./nothing'') (u ''my-bucket'') None
       = (None, [Print_not_file_or_dir (u ''./nothing'')])"
proof -
  let ?file = "u ''./batch-1700000000.jsonl''"
  let ?dir = "u ''./unzipped_transcripts''"
  have is_file: "isfile example_fs ?file"
    and is_dir: "\<not> isfile example_fs ?dir \<and> isdir example_fs ?dir"
    and neither: "\<not> isfile example_fs (u ''./nothing'') \<and> \<not> isdir example_fs (u ''./nothing'')"
    by (simp_all add: example_fs_def u_def)
  have "fst (upload_to_s3 example_fs s3_accepts ?file (u ''my-bucket'') (Some (u ''in''))) = Some True"
    using upload_to_s3_return_value [of example_fs s3_accepts ?file "u ''my-bucket''" "Some (u ''in'')"] is_file
    by (simp add: s3_accepts_def)
  moreover
  have "fst (upload_to_s3 example_fs s3_refuses ?file (u ''my-bucket'') (Some (u ''in''))) = Some False"
    using upload_to_s3_return_value [of example_fs s3_refuses ?file "u ''my-bucket''" "Some (u ''in'')"] is_file
    by (simp add: s3_refuses_def)
  moreover
  have "upload_to_s3 example_fs s3_refuses ?dir (u ''my-bucket'') (Some (u ''raw'')) =
       (None,
        [Upload_file (u ''./unzipped_transcripts/a.txt'') (u ''my-bucket'') (u ''raw/a.txt''),
         Print_upload_error (u ''./unzipped_transcripts/a.txt'') (ClientError (u ''AccessDenied'')),
         Upload_file (u ''./unzipped_transcripts/b.txt'') (u ''my-bucket'') (u ''raw/b.txt''),
         Print_upload_error (u ''./unzipped_transcripts/b.txt'') (ClientError (u ''AccessDenied''))])"
  proof -
    from upload_to_s3_return_value [of example_fs s3_refuses ?dir "u ''my-bucket''" "Some (u ''raw'')"] is_dir
    have "fst (upload_to_s3 example_fs s3_refuses ?dir (u ''my-bucket'') (Some (u ''raw''))) = None"
      and "snd (upload_to_s3 example_fs s3_refuses ?dir (u ''my-bucket'') (Some (u ''raw''))) =
        concat (map (\<lambda>(root, dirs, files). concat (map (\<lambda>file.
              Upload_file (join root file) (u ''my-bucket'')
                (object_name_of (Some (u ''raw'')) (relpath example_fs (join root file) ?dir))
              # (case s3_refuses (join root file) (u ''my-bucket'')
                       (object_name_of (Some (u ''raw'')) (relpath example_fs (join root file) ?dir)) of
                   None \<Rightarrow> []
                 | Some e \<Rightarrow> [Print_upload_error (join root file) e])) files)) (walk example_fs ?dir))"
      by blast+
    moreover have "concat (map (\<lambda>(root, dirs, files). concat (map (\<lambda>file.
              Upload_file (join root file) (u ''my-bucket'')
                (object_name_of (Some (u ''raw'')) (relpath example_fs (join root file) ?dir))
              # (case s3_refuses (join root file) (u ''my-bucket'')
                       (object_name_of (Some (u ''raw'')) (relpath example_fs (join root file) ?dir)) of
                   None \<Rightarrow> []
                 | Some e \<Rightarrow> [Print_upload_error (join root file) e])) files)) (walk example_fs ?dir))
       = [Upload_file (u ''./unzipped_transcripts/a.txt'') (u ''my-bucket'') (u ''raw/a.txt''),
         Print_upload_error (u ''./unzipped_transcripts/a.txt'') (ClientError (u ''AccessDenied'')),
         Upload_file (u ''./unzipped_transcripts/b.txt'') (u ''my-bucket'') (u ''raw/b.txt''),
         Print_upload_error (u ''./unzipped_transcripts/b.txt'') (ClientError (u ''AccessDenied''))]"
      by (simp add: example_fs_def s3_refuses_def join_def object_name_of_def u_def)
    ultimately show ?thesis
      by (simp add: prod_eq_iff)
  qed
  moreover
  have "fst (upload_to_s3 example_fs s3_accepts ?dir (u ''my-bucket'') (Some (u ''raw''))) = None"
    using upload_to_s3_return_value [of example_fs s3_accepts ?dir "u ''my-bucket''" "Some (u ''raw'')"] is_dir
    by blast
  moreover
  have "upload_to_s3 example_fs s3_accepts (u ''./nothing'') (u ''my-bucket'') None
       = (None, [Print_not_file_or_dir (u ''./nothing'')])"
    using upload_to_s3_return_value [of example_fs s3_accepts "u ''./nothing''" "u ''my-bucket''" None] neither
    by blast
  ultimately show ?thesis
    by blast
qed

subsection \<open>Retrieving the output\<close>

lemma and_then_Inr_iff:
  "and_then r f = Inr y \<longleftrightarrow> (\<exists>x. r = Inr x \<and> f x = Inr y)"
  by (cases r) (simp_all add: and_then_def)

lemma and_then_Inl_iff:
  "and_then r f = Inl e \<longleftrightarrow> r = Inl e \<or> (\<exists>x. r = Inr x \<and> f x = Inl e)"
  by (cases r) (simp_all add: and_then_def)

lemma retrieve_loop_step_ok:
  "and_then (json_loads line) output_entry = Inr entry \<Longrightarrow>
   retrieve_loop (line # lines) acc held = retrieve_loop lines (acc @ [entry]) (Some entry)"
  by (auto simp: and_then_Inr_iff)

lemma retrieve_loop_step_fail:
  "and_then (json_loads line) output_entry = Inl e \<Longrightarrow>
   retrieve_loop (line # lines) acc held = (acc, held, Some e)"
  by (auto simp: and_then_Inl_iff)

lemma retrieve_loop_prefix:
  "length entries = length good \<Longrightarrow>
   \<forall>i<length good. and_then (json_loads (good ! i)) output_entry = Inr (entries ! i) \<Longrightarrow>
   retrieve_loop (good @ later) acc held =
     retrieve_loop later (acc @ entries) (if entries = [] then held else Some (last entries))"
proof (induction good arbitrary: entries acc held)
  case Nil
  then show ?case by simp
next
  case (Cons line good)
  then obtain entry rest where entries: "entries = entry # rest"
    by (cases entries) auto
  from Cons.prems have first: "and_then (json_loads line) output_entry = Inr entry"
    by (auto simp: entries)
  from Cons.prems have len: "length rest = length good"
    by (simp add: entries)
  from Cons.prems have "\<forall>i<length good. and_then (json_loads (good ! i)) output_entry = Inr (rest ! i)"
    by (auto simp: entries)
  with len have "retrieve_loop (good @ later) (acc @ [entry]) (Some entry) =
     retrieve_loop later ((acc @ [entry]) @ rest) (if rest = [] then Some entry else Some (last rest))"
    by (rule Cons.IH)
  with first show ?case
    by (simp add: retrieve_loop_step_ok entries del: retrieve_loop.simps)
qed

lemma fetched_keys_retrieve_output:
  "fetched_keys (events (retrieve_output env cfg)) = [object_key cfg]"
  by (auto simp: retrieve_output_def fetched_keys_def Let_def split: prod.splits option.splits)

lemma splitlines_from_line:
  "\<forall>c\<in>set l. \<not> is_linebreak c \<Longrightarrow>
   splitlines_from acc (l @ 10 # rest) = (acc @ l) # (if rest = [] then [] else splitlines_from [] rest)"
proof (induction l arbitrary: acc)
  case Nil
  show ?case
    by (cases rest) (simp_all add: is_linebreak_def)
next
  case (Cons c l)
  then show ?case by simp
qed

lemma splitlines_line:
  "\<forall>c\<in>set l. \<not> is_linebreak c \<Longrightarrow> splitlines (l @ 10 # rest) = l # splitlines rest"
  by (simp add: splitlines_def splitlines_from_line)


lemmas json_eval = json_loads_def skip_ws_def is_whitespace_def match_number_def is_digit_def
  int_part_def frac_part_def exp_part_def
  nat_of_digits_def Let_def u_def float_of_decimal_def strip_zeros.simps dict_set_def
  decode_hex4_def hex_value_def unescape_def

lemma json_loads_good_line: "json_loads good_line = Inr good_data"
  by (simp add: good_line_def good_data_def json_eval)

lemma output_entry_good_data: "output_entry good_data = Inr good_entry"
  by (simp add: output_entry_def good_data_def good_entry_def and_then_def u_def)

lemma good_line_entry: "and_then (json_loads good_line) output_entry = Inr good_entry"
  by (simp add: json_loads_good_line output_entry_good_data and_then_def)

lemma bad_line_error:
  "and_then (json_loads bad_line) output_entry = Inl (KeyError (PyStr (u ''modelOutput'')))"
  by (simp add: bad_line_def json_eval output_entry_def and_then_def)

lemma good_line_one_line: "\<forall>c\<in>set good_line. \<not> is_linebreak c"
  by (simp add: good_line_def is_linebreak_def u_def)

lemma bad_line_one_line: "\<forall>c\<in>set bad_line. \<not> is_linebreak c"
  by (simp add: bad_line_def is_linebreak_def u_def)

lemma object_key_example: "object_key example_config = u ''in/out/abc123/batch-1700000000.jsonl.out''"
  by (simp add: object_key_def example_config_def u_def)

lemma splitlines_bad_second_line:
  "splitlines (good_line @ 10 # bad_line @ 10 # good_line @ 10 # []) = [good_line, bad_line, good_line]"
  by (simp add: splitlines_line good_line_one_line bad_line_one_line) (simp add: splitlines_def)

lemma splitlines_good_output:
  "splitlines (good_line @ 10 # good_line @ 10 # []) = [good_line, good_line]"
  by (simp add: splitlines_line good_line_one_line) (simp add: splitlines_def)

lemma get_bad_second_line:
  "get_object_text bad_second_line (var_bucket_name example_config) (object_key example_config)
     = Inr (good_line @ 10 # bad_line @ 10 # good_line @ 10 # [])"
  by (simp add: object_key_example) (simp add: bad_second_line_def)

lemma get_good_output:
  "get_object_text good_output (var_bucket_name example_config) (object_key example_config)
     = Inr (good_line @ 10 # good_line @ 10 # [])"
  by (simp add: object_key_example) (simp add: good_output_def)

lemma output_entry_Inr:
  assumes "and_then (json_loads line) output_entry = Inr entry"
  shows "\<exists>data request_id output_text input_tokens output_tokens model stop_reason
            max_tokens temperature top_p top_k.
      json_loads line = Inr data
    \<and> item data (u ''recordId'') = Inr request_id
    \<and> and_then (lookup_path data [u ''modelOutput'', u ''content''])
          (\<lambda>content. and_then (item_at content 0) (\<lambda>block. item block (u ''text''))) = Inr output_text
    \<and> lookup_path data [u ''modelOutput'', u ''usage'', u ''input_tokens''] = Inr input_tokens
    \<and> lookup_path data [u ''modelOutput'', u ''usage'', u ''output_tokens''] = Inr output_tokens
    \<and> lookup_path data [u ''modelOutput'', u ''model''] = Inr model
    \<and> lookup_path data [u ''modelOutput'', u ''stop_reason''] = Inr stop_reason
    \<and> lookup_path data [u ''modelInput'', u ''max_tokens''] = Inr max_tokens
    \<and> lookup_path data [u ''modelInput'', u ''temperature''] = Inr temperature
    \<and> lookup_path data [u ''modelInput'', u ''top_p''] = Inr top_p
    \<and> lookup_path data [u ''modelInput'', u ''top_k''] = Inr top_k
    \<and> entry = PyDict [
         (u ''request_id'', request_id),
         (u ''output_text'', output_text),
         (u ''observability'', PyDict [
            (u ''input_tokens'', input_tokens),
            (u ''output_tokens'', output_tokens),
            (u ''model'', model),
            (u ''stop_reason'', stop_reason),
            (u ''request_id'', request_id),
            (u ''max_tokens'', max_tokens),
            (u ''temperature'', temperature),
            (u ''top_p'', top_p),
            (u ''top_k'', top_k)])]"
  using assms by (auto simp: output_entry_def and_then_Inr_iff)

lemma retrieve_output_stops:
  assumes fetched: "get_object_text env (var_bucket_name cfg) (object_key cfg) = Inr json_data"
    and lines: "splitlines json_data = good @ bad # rest"
    and len: "length entries = length good"
    and good: "\<forall>i<length good. and_then (json_loads (good ! i)) output_entry = Inr (entries ! i)"
    and bad: "and_then (json_loads bad) output_entry = Inl e"
  shows "retrieve_output env cfg =
     \<lparr>output_data = entries,
      events = [Get_object (var_bucket_name cfg) (object_key cfg), Print_error e, Print_sample_output]
               @ (if entries = [] then [] else [Print_entry (last entries)]),
      raised = (if entries = [] then Some (NameError (u ''output_entry'')) else None)\<rparr>"
proof -
  have "retrieve_loop (good @ bad # rest) [] None =
      retrieve_loop (bad # rest) ([] @ entries) (if entries = [] then None else Some (last entries))"
    using len good by (rule retrieve_loop_prefix)
  also have "\<dots> = (entries, if entries = [] then None else Some (last entries), Some e)"
    using bad by (simp add: retrieve_loop_step_fail del: retrieve_loop.simps)
  finally show ?thesis
    using fetched lines by (simp add: retrieve_output_def)
qed

lemma retrieve_output_all:
  assumes fetched: "get_object_text env (var_bucket_name cfg) (object_key cfg) = Inr json_data"
    and len: "length entries = length (splitlines json_data)"
    and good: "\<forall>i<length (splitlines json_data).
        and_then (json_loads (splitlines json_data ! i)) output_entry = Inr (entries ! i)"
  shows "retrieve_output env cfg =
     \<lparr>output_data = entries,
      events = [Get_object (var_bucket_name cfg) (object_key cfg), Print_read (length entries),
                Print_sample_output]
               @ (if entries = [] then [] else [Print_entry (last entries)]),
      raised = (if entries = [] then Some (NameError (u ''output_entry'')) else None)\<rparr>"
proof -
  have "retrieve_loop (splitlines json_data @ []) [] None =
      retrieve_loop [] ([] @ entries) (if entries = [] then None else Some (last entries))"
    using len good by (rule retrieve_loop_prefix)
  then have "retrieve_loop (splitlines json_data) [] None =
      (entries, if entries = [] then None else Some (last entries), None)"
    by simp
  then show ?thesis
    using fetched by (simp add: retrieve_output_def)
qed

text \<open>
  C7. The claim is that a malformed line leaves no Output Records at all. In the example
  the second of three lines has no \<^verbatim>\<open>modelOutput\<close>; the cell catches the
  \<^verbatim>\<open>KeyError\<close>, prints it, and \<^verbatim>\<open>output_data\<close> keeps the entry of the first line.
\<close>

theorem retrieval_keeps_entries_before_bad_line:
  "and_then (json_loads bad_line) output_entry = Inl (KeyError (PyStr (u ''modelOutput'')))
   \<and> splitlines (good_line @ 10 # bad_line @ 10 # good_line @ 10 # [])
       = [good_line, bad_line, good_line]
   \<and> get_object_text bad_second_line (var_bucket_name example_config) (object_key example_config)
       = Inr (good_line @ 10 # bad_line @ 10 # good_line @ 10 # [])
   \<and> output_data (retrieve_output bad_second_line example_config) = [good_entry]
   \<and> output_data (retrieve_output bad_second_line example_config) \<noteq> []
   \<and> raised (retrieve_output bad_second_line example_config) = None"
proof -
  have "retrieve_loop [good_line, bad_line, good_line] [] None =
      ([good_entry], Some good_entry, Some (KeyError (PyStr (u ''modelOutput''))))"
    by (simp add: retrieve_loop_step_ok [OF good_line_entry]
        retrieve_loop_step_fail [OF bad_line_error] del: retrieve_loop.simps)
  then have "retrieve_output bad_second_line example_config =
     \<lparr>output_data = [good_entry],
      events = [Get_object (var_bucket_name example_config) (object_key example_config),
                Print_error (KeyError (PyStr (u ''modelOutput''))), Print_sample_output,
                Print_entry good_entry],
      raised = None\<rparr>"
    by (simp add: retrieve_output_def get_bad_second_line splitlines_bad_second_line)
  then show ?thesis
    by (simp add: bad_line_error splitlines_bad_second_line get_bad_second_line)
qed

text \<open>
  C7, as the code has it. When the output file is fetched and one of its lines does not
  decode or lacks a field that the entry needs, the loop stops at that line: the exception
  is caught and printed instead of raised, no later line is read, and \<^verbatim>\<open>output_data\<close>
  holds the entries of the lines before it, in order. It is empty only when there is no
  line before it, and then the final \<^verbatim>\<open>print(output_entry)\<close> of a fresh kernel raises.
\<close>

theorem retrieval_stops_at_first_bad_line:
  assumes "get_object_text env (var_bucket_name cfg) (object_key cfg) = Inr json_data"
    and "splitlines json_data = good @ bad # rest"
    and "length entries = length good"
    and "\<forall>i<length good. and_then (json_loads (good ! i)) output_entry = Inr (entries ! i)"
    and "and_then (json_loads bad) output_entry = Inl e"
  shows "output_data (retrieve_output env cfg) = entries
    \<and> events (retrieve_output env cfg) =
        [Get_object (var_bucket_name cfg) (object_key cfg), Print_error e, Print_sample_output]
        @ (if entries = [] then [] else [Print_entry (last entries)])
    \<and> raised (retrieve_output env cfg) =
        (if entries = [] then Some (NameError (u ''output_entry'')) else None)"
  by (simp add: retrieve_output_stops [OF assms])

theorem retrieval_stops_at_first_bad_line_witness:
  "output_data (retrieve_output bad_second_line example_config) = [good_entry]
   \<and> events (retrieve_output bad_second_line example_config) =
        [Get_object (u ''my-bucket'') (u ''in/out/abc123/batch-1700000000.jsonl.out''),
         Print_error (KeyError (PyStr (u ''modelOutput''))), Print_sample_output,
         Print_entry good_entry]
   \<and> raised (retrieve_output bad_second_line example_config) = None"
proof -
  have lines: "splitlines (good_line @ 10 # bad_line @ 10 # good_line @ 10 # [])
      = [good_line] @ bad_line # [good_line]"
    by (simp add: splitlines_bad_second_line)
  have len: "length [good_entry] = length [good_line]"
    by simp
  have good: "\<forall>i<length [good_line].
      and_then (json_loads ([good_line] ! i)) output_entry = Inr ([good_entry] ! i)"
    by (simp add: good_line_entry)
  from retrieval_stops_at_first_bad_line [OF get_bad_second_line lines len good bad_line_error]
  show ?thesis
    by (simp add: object_key_example) (simp add: example_config_def)
qed

text \<open>
  C8. The claim is that the retriever fetches the manifest and the output file. The cell
  sends one request to S3, for the output file; the key of the manifest is not among the
  keys it asks for.
\<close>

theorem retrieval_does_not_fetch_manifest:
  "fetched_keys (events (retrieve_output good_output example_config))
     = [u ''in/out/abc123/batch-1700000000.jsonl.out'']
   \<and> manifest_key example_config = u ''in/out/abc123/manifest.json.out''
   \<and> manifest_key example_config
       \<notin> set (fetched_keys (events (retrieve_output good_output example_config)))"
  by (simp add: fetched_keys_retrieve_output object_key_example)
     (simp add: manifest_key_def example_config_def u_def)

text \<open>
  C8, as the code has it. The cell fetches one object and no other, the output file under
  the key \<^verbatim>\<open>{model_input_summary_prefix}/{output_prefix}/{job_id}/{filename}.out\<close>. When
  the file is fetched and every line decodes and has the fields that the entry needs,
  \<^verbatim>\<open>output_data\<close> has one entry per line, in the order of the file, and the entry of a
  line carries the record identifier, the generated text
  (\<^verbatim>\<open>modelOutput.content[0].text\<close>), the token counts of \<^verbatim>\<open>modelOutput.usage\<close>, the
  model, the stop reason, and the four generation parameters of \<^verbatim>\<open>modelInput\<close>.
\<close>

theorem retrieval_reads_output_file_in_order:
  assumes "get_object_text env (var_bucket_name cfg) (object_key cfg) = Inr json_data"
    and "length entries = length (splitlines json_data)"
    and "\<forall>i<length (splitlines json_data).
        and_then (json_loads (splitlines json_data ! i)) output_entry = Inr (entries ! i)"
  shows "fetched_keys (events (retrieve_output env cfg)) =
        [var_model_input_summary_prefix cfg @ u ''/'' @ var_output_prefix cfg @ u ''/''
         @ var_job_id cfg @ u ''/'' @ var_filename cfg @ u ''.out'']
    \<and> output_data (retrieve_output env cfg) = entries
    \<and> (\<forall>i<length (splitlines json_data).
          \<exists>data request_id output_text input_tokens output_tokens model stop_reason
             max_tokens temperature top_p top_k.
            json_loads (splitlines json_data ! i) = Inr data
          \<and> item data (u ''recordId'') = Inr request_id
          \<and> and_then (lookup_path data [u ''modelOutput'', u ''content''])
                (\<lambda>content. and_then (item_at content 0) (\<lambda>block. item block (u ''text'')))
              = Inr output_text
          \<and> lookup_path data [u ''modelOutput'', u ''usage'', u ''input_tokens''] = Inr input_tokens
          \<and> lookup_path data [u ''modelOutput'', u ''usage'', u ''output_tokens''] = Inr output_tokens
          \<and> lookup_path data [u ''modelOutput'', u ''model''] = Inr model
          \<and> lookup_path data [u ''modelOutput'', u ''stop_reason''] = Inr stop_reason
          \<and> lookup_path data [u ''modelInput'', u ''max_tokens''] = Inr max_tokens
          \<and> lookup_path data [u ''modelInput'', u ''temperature''] = Inr temperature
          \<and> lookup_path data [u ''modelInput'', u ''top_p''] = Inr top_p
          \<and> lookup_path data [u ''modelInput'', u ''top_k''] = Inr top_k
          \<and> entries ! i = PyDict [
               (u ''request_id'', request_id),
               (u ''output_text'', output_text),
               (u ''observability'', PyDict [
                  (u ''input_tokens'', input_tokens),
                  (u ''output_tokens'', output_tokens),
                  (u ''model'', model),
                  (u ''stop_reason'', stop_reason),
                  (u ''request_id'', request_id),
                  (u ''max_tokens'', max_tokens),
                  (u ''temperature'', temperature),
                  (u ''top_p'', top_p),
                  (u ''top_k'', top_k)])])"
proof (intro conjI allI impI)
  show "fetched_keys (events (retrieve_output env cfg)) =
        [var_model_input_summary_prefix cfg @ u ''/'' @ var_output_prefix cfg @ u ''/''
         @ var_job_id cfg @ u ''/'' @ var_filename cfg @ u ''.out'']"
    by (simp add: fetched_keys_retrieve_output object_key_def)
  show "output_data (retrieve_output env cfg) = entries"
    by (simp add: retrieve_output_all [OF assms])
next
  fix i
  assume "i < length (splitlines json_data)"
  with assms(3) have "and_then (json_loads (splitlines json_data ! i)) output_entry = Inr (entries ! i)"
    by blast
  then show "\<exists>data request_id output_text input_tokens output_tokens model stop_reason
             max_tokens temperature top_p top_k.
            json_loads (splitlines json_data ! i) = Inr data
          \<and> item data (u ''recordId'') = Inr request_id
          \<and> and_then (lookup_path data [u ''modelOutput'', u ''content''])
                (\<lambda>content. and_then (item_at content 0) (\<lambda>block. item block (u ''text'')))
              = Inr output_text
          \<and> lookup_path data [u ''modelOutput'', u ''usage'', u ''input_tokens''] = Inr input_tokens
          \<and> lookup_path data [u ''modelOutput'', u ''usage'', u ''output_tokens''] = Inr output_tokens
          \<and> lookup_path data [u ''modelOutput'', u ''model''] = Inr model
          \<and> lookup_path data [u ''modelOutput'', u ''stop_reason''] = Inr stop_reason
          \<and> lookup_path data [u ''modelInput'', u ''max_tokens''] = Inr max_tokens
          \<and> lookup_path data [u ''modelInput'', u ''temperature''] = Inr temperature
          \<and> lookup_path data [u ''modelInput'', u ''top_p''] = Inr top_p
          \<and> lookup_path data [u ''modelInput'', u ''top_k''] = Inr top_k
          \<and> entries ! i = PyDict [
               (u ''request_id'', request_id),
               (u ''output_text'', output_text),
               (u ''observability'', PyDict [
                  (u ''input_tokens'', input_tokens),
                  (u ''output_tokens'', output_tokens),
                  (u ''model'', model),
                  (u ''stop_reason'', stop_reason),
                  (u ''request_id'', request_id),
                  (u ''max_tokens'', max_tokens),
                  (u ''temperature'', temperature),
                  (u ''top_p'', top_p),
                  (u ''top_k'', top_k)])]"
    by (rule output_entry_Inr)
qed

theorem retrieval_reads_output_file_in_order_witness:
  "fetched_keys (events (retrieve_output good_output example_config))
     = [u ''in/out/abc123/batch-1700000000.jsonl.out'']
   \<and> output_data (retrieve_output good_output example_config) = [good_entry, good_entry]"
proof -
  have len: "length [good_entry, good_entry] = length (splitlines (good_line @ 10 # good_line @ 10 # []))"
    by (simp add: splitlines_good_output)
  have good: "\<forall>i<length (splitlines (good_line @ 10 # good_line @ 10 # [])).
      and_then (json_loads (splitlines (good_line @ 10 # good_line @ 10 # []) ! i)) output_entry
        = Inr ([good_entry, good_entry] ! i)"
    by (simp add: splitlines_good_output good_line_entry less_Suc_eq)
  from retrieval_reads_output_file_in_order [OF get_good_output len good]
  show ?thesis
    by (simp add: example_config_def u_def)
qed

subsection \<open>The empty prefix\<close>

text \<open>
  C9. When the listing has no \<^verbatim>\<open>Contents\<close> entry, \<^verbatim>\<open>prepare_model_inputs\<close> returns the
  empty list and raises nothing; \<^verbatim>\<open>write_jsonl\<close> turns the empty batch into an empty
  file.
\<close>

theorem empty_listing_gives_empty_batch:
  assumes "list_objects_v2 env bucket_name prefix = Inr response"
    and "Contents response = None"
  shows "prepare_model_inputs env bucket_name prefix = Inr [] \<and> write_jsonl [] = []"
  using assms by (simp add: prepare_model_inputs_def contents_def)

theorem empty_listing_gives_empty_batch_witness:
  "list_objects_v2 empty_prefix (u ''my-bucket'') (u ''raw/'') = Inr \<lparr>Contents = None\<rparr>
   \<and> prepare_model_inputs empty_prefix (u ''my-bucket'') (u ''raw/'') = Inr []
   \<and> write_jsonl [] = []"
proof -
  have listing: "list_objects_v2 empty_prefix (u ''my-bucket'') (u ''raw/'') = Inr \<lparr>Contents = None\<rparr>"
    by (simp add: empty_prefix_def)
  have none: "Contents \<lparr>Contents = None\<rparr> = None"
    by simp
  from empty_listing_gives_empty_batch [OF listing none] listing show ?thesis
    by simp
qed

subsection \<open>Writing the JSONL file and reading it back\<close>

lemma hex_value_hex_digit: "d < 16 \<Longrightarrow> hex_value (hex_digit d) = Some d"
  by (auto simp: hex_value_def hex_digit_def)

lemma hex4_value:
  fixes n :: nat
  assumes "n < 65536"
  shows "4096 * (n div 4096 mod 16) + 256 * (n div 256 mod 16) + 16 * (n div 16 mod 16) + n mod 16 = n"
proof -
  have a: "n mod 256 = 16 * (n div 16 mod 16) + n mod 16"
    using mod_mult2_eq [of n 16 16] by simp
  have b: "n mod 4096 = 256 * (n div 256 mod 16) + n mod 256"
    using mod_mult2_eq [of n 256 16] by simp
  have c: "n mod 65536 = 4096 * (n div 4096 mod 16) + n mod 4096"
    using mod_mult2_eq [of n 4096 16] by simp
  from assms have "n mod 65536 = n"
    by simp
  with a b c show ?thesis
    by linarith
qed

lemma decode_hex4_hex4:
  assumes "n < 65536"
  shows "decode_hex4 (hex_digit (n div 4096 mod 16)) (hex_digit (n div 256 mod 16))
           (hex_digit (n div 16 mod 16)) (hex_digit (n mod 16)) = Some n"
  using hex4_value [OF assms] assms by (simp add: decode_hex4_def hex_value_hex_digit)

lemma surrogate_pair:
  fixes c :: nat
  assumes "65536 \<le> c" "c < 1114112"
  shows "55296 + (c - 65536) div 1024 mod 1024 \<le> 56319"
    and "56320 + (c - 65536) mod 1024 \<le> 57343"
    and "65536 + (55296 + (c - 65536) div 1024 mod 1024 - 55296) * 1024
           + (56320 + (c - 65536) mod 1024 - 56320) = c"
proof -
  define v where "v = c - 65536"
  from assms have v: "v < 1024 * 1024" and c: "c = 65536 + v"
    by (simp_all add: v_def)
  from v have d: "v div 1024 < 1024"
    by (simp add: less_mult_imp_div_less)
  then have m: "v div 1024 mod 1024 = v div 1024"
    by simp
  have r: "v mod 1024 < 1024"
    by simp
  have sum: "v div 1024 * 1024 + v mod 1024 = v"
    by simp
  from d m show "55296 + (c - 65536) div 1024 mod 1024 \<le> 56319"
    by (simp add: v_def [symmetric])
  from r show "56320 + (c - 65536) mod 1024 \<le> 57343"
    by (simp add: v_def [symmetric])
  from m sum c show "65536 + (55296 + (c - 65536) div 1024 mod 1024 - 55296) * 1024
           + (56320 + (c - 65536) mod 1024 - 56320) = c"
    by (simp add: v_def [symmetric])
qed

lemma decode_hex4_of_hex4:
  "n < 65536 \<Longrightarrow> hex4 n = [a, b, c, d] \<Longrightarrow> decode_hex4 a b c d = Some n"
  using decode_hex4_hex4 [of n] by (simp add: hex4_def)

lemma hex4_digits: "\<exists>a b c d. hex4 n = [a, b, c, d]"
  by (simp add: hex4_def)

lemma scanstring_u_escape:
  assumes "n < 65536" "\<not> (55296 \<le> n \<and> n \<le> 56319)"
  shows "scanstring chunks (92 # 117 # hex4 n @ tail) = scanstring (chunks @ [n]) tail"
proof -
  obtain a b c d where digits: "hex4 n = [a, b, c, d]"
    using hex4_digits by blast
  from decode_hex4_of_hex4 [OF assms(1) digits] assms(2) show ?thesis
    by (auto simp: digits)
qed

lemma scanstring_u_escape_pair:
  assumes "55296 \<le> hi" "hi \<le> 56319" "56320 \<le> lo" "lo \<le> 57343" "tail \<noteq> []"
  shows "scanstring chunks (92 # 117 # hex4 hi @ 92 # 117 # hex4 lo @ tail) =
     scanstring (chunks @ [65536 + (hi - 55296) * 1024 + (lo - 56320)]) tail"
proof -
  obtain a b c d where hi: "hex4 hi = [a, b, c, d]"
    using hex4_digits by blast
  obtain e f g h where lo: "hex4 lo = [e, f, g, h]"
    using hex4_digits by blast
  from assms have "hi < 65536" "lo < 65536"
    by simp_all
  then have "decode_hex4 a b c d = Some hi" "decode_hex4 e f g h = Some lo"
    using hi lo by (simp_all add: decode_hex4_of_hex4)
  with assms show ?thesis
    by (simp add: hi lo)
qed

lemma scanstring_escape_char:
  assumes "c < 1114112" "\<not> (55296 \<le> c \<and> c \<le> 57343)" "tail \<noteq> []"
  shows "scanstring chunks (escape_char c @ tail) = scanstring (chunks @ [c]) tail"
proof -
  consider (special) "c \<in> {92, 34, 8, 12, 10, 13, 9}"
    | (plain) "c \<notin> {92, 34, 8, 12, 10, 13, 9}" "32 \<le> c" "c \<le> 126"
    | (bmp) "c \<notin> {92, 34, 8, 12, 10, 13, 9}" "\<not> (32 \<le> c \<and> c \<le> 126)" "c < 65536"
    | (astral) "65536 \<le> c"
    by fastforce
  then show ?thesis
  proof cases
    case special
    then show ?thesis
      by (auto simp: escape_char_def unescape_def)
  next
    case plain
    then show ?thesis
      by (simp add: escape_char_def)
  next
    case bmp
    with assms(2) have "escape_char c = 92 # 117 # hex4 c" and "\<not> (55296 \<le> c \<and> c \<le> 56319)"
      by (auto simp: escape_char_def)
    with bmp(3) show ?thesis
      by (simp add: scanstring_u_escape del: scanstring.simps)
  next
    case astral
    define hi where "hi = 55296 + (c - 65536) div 1024 mod 1024"
    define lo where "lo = 56320 + (c - 65536) mod 1024"
    have esc: "escape_char c = 92 # 117 # hex4 hi @ 92 # 117 # hex4 lo"
      using astral by (simp add: escape_char_def hi_def lo_def)
    have ranges: "55296 \<le> hi" "hi \<le> 56319" "56320 \<le> lo" "lo \<le> 57343"
      using surrogate_pair(1,2) [OF astral assms(1)] by (simp_all add: hi_def lo_def)
    have val: "65536 + (hi - 55296) * 1024 + (lo - 56320) = c"
      using surrogate_pair(3) [OF astral assms(1)] by (simp only: hi_def lo_def)
    have "scanstring chunks ((92 # 117 # hex4 hi @ 92 # 117 # hex4 lo) @ tail) =
        scanstring (chunks @ [65536 + (hi - 55296) * 1024 + (lo - 56320)]) tail"
      using scanstring_u_escape_pair [OF ranges assms(3)] by simp
    then show ?thesis
      by (simp only: esc val)
  qed
qed

lemma scanstring_escaped:
  "scalar s \<Longrightarrow>
   scanstring chunks (concat (map escape_char s) @ 34 # rest) = Some (chunks @ s, rest)"
proof (induction s arbitrary: chunks)
  case Nil
  show ?case by simp
next
  case (Cons c s)
  then have c: "c < 1114112" "\<not> (55296 \<le> c \<and> c \<le> 57343)" and s: "scalar s"
    by (simp_all add: scalar_def)
  have "scanstring chunks (escape_char c @ concat (map escape_char s) @ 34 # rest) =
      scanstring (chunks @ [c]) (concat (map escape_char s) @ 34 # rest)"
    using c by (intro scanstring_escape_char) simp_all
  with Cons.IH [OF s, of "chunks @ [c]"] show ?case
    by (simp del: scanstring.simps)
qed

lemma scanstring_encoded:
  "scalar s \<Longrightarrow> scanstring [] (tl (encode_basestring_ascii s) @ rest) = Some (s, rest)"
  using scanstring_escaped [of s "[]" rest] by (simp add: encode_basestring_ascii_def)









lemma str_nat_digits: "\<forall>c\<in>set (str_nat n). is_digit c"
proof (induction n rule: str_nat.induct)
  case (1 n)
  show ?case
  proof (cases "n < 10")
    case True
    then show ?thesis
      by (subst str_nat.simps) (simp add: is_digit_def)
  next
    case False
    have "n mod 10 < 10" by simp
    then have "is_digit (48 + n mod 10)"
      unfolding is_digit_def by linarith
    with False 1 show ?thesis
      by (subst str_nat.simps) simp
  qed
qed



































lemma hex_digit_printable: "d < 16 \<Longrightarrow> 32 \<le> hex_digit d \<and> hex_digit d \<le> 126"
  by (simp add: hex_digit_def)

lemma hex4_printable: "\<forall>c\<in>set (hex4 n). 32 \<le> c \<and> c \<le> 126"
  by (simp add: hex4_def hex_digit_printable)

lemma escape_char_printable: "\<forall>c\<in>set (escape_char x). 32 \<le> c \<and> c \<le> 126"
  using hex4_printable by (auto simp: escape_char_def)

lemma encode_basestring_ascii_printable:
  "\<forall>c\<in>set (encode_basestring_ascii s). 32 \<le> c \<and> c \<le> 126"
  using escape_char_printable by (auto simp: encode_basestring_ascii_def)

lemma str_nat_printable: "\<forall>c\<in>set (str_nat n). 32 \<le> c \<and> c \<le> 126"
  using str_nat_digits [of n] by (auto simp: is_digit_def)

lemma str_int_printable: "\<forall>c\<in>set (str_int i). 32 \<le> c \<and> c \<le> 126"
  using str_nat_printable by (auto simp: str_int_def)




























lemma prepare_loop_records:
  assumes "\<forall>key t. get_object_text env bucket_name key = Inr t \<longrightarrow> scalar t"
  shows "prepare_loop env bucket_name objs k model_inputs = Inr batch \<Longrightarrow>
    \<forall>r\<in>set model_inputs. \<exists>n t. scalar t \<and> r = model_input (str_nat n) (body (input_text t)) \<Longrightarrow>
    \<forall>r\<in>set batch. \<exists>n t. scalar t \<and> r = model_input (str_nat n) (body (input_text t))"
proof (induction objs arbitrary: k model_inputs)
  case Nil
  then show ?case by simp
next
  case (Cons obj objs)
  from Cons.prems(1) obtain t where read: "get_object_text env bucket_name (Key obj) = Inr t"
    and loop: "prepare_loop env bucket_name objs (Suc k)
        (model_inputs @ [model_input (str_nat (timestamp_seconds (now env k))) (body (input_text t))])
        = Inr batch"
    by (auto simp: Let_def split: sum.splits)
  from read assms have "scalar t"
    by blast
  with Cons.prems(2) have "\<forall>r\<in>set (model_inputs
        @ [model_input (str_nat (timestamp_seconds (now env k))) (body (input_text t))]).
      \<exists>n t. scalar t \<and> r = model_input (str_nat n) (body (input_text t))"
    by auto
  with loop show ?case
    by (rule Cons.IH)
qed

lemma prepare_model_inputs_records:
  assumes "prepare_model_inputs env bucket_name prefix = Inr batch"
    and "\<forall>key t. get_object_text env bucket_name key = Inr t \<longrightarrow> scalar t"
  shows "\<forall>r\<in>set batch. \<exists>n t. scalar t \<and> r = model_input (str_nat n) (body (input_text t))"
proof -
  from assms(1) obtain response where
    "prepare_loop env bucket_name (contents response) 0 [] = Inr batch"
    by (auto simp: prepare_model_inputs_def split: sum.splits)
  from prepare_loop_records [OF assms(2) this] show ?thesis
    by simp
qed

lemma surrogate_pair_is_joined:
  "json_loads (json_dumps (PyStr [55357, 56832])) = Inr (PyStr [128512])"
  by (simp add: encode_basestring_ascii_def escape_char_def hex4_def hex_digit_def
      json_loads_def skip_ws_def is_whitespace_def decode_hex4_def hex_value_def)



end
